theory Spec2Isabelle
  imports Complex_Main "HOL-Library.Sublist"
begin

section \<open>Text: characters, case folding, whitespace\<close>

text \<open>
  Python strings are modelled by \<^typ>\<open>string\<close> and stand for ASCII text, one character
  per code point: \<open>lower_chr\<close> folds the letters A-Z as \<open>str.lower\<close> does, \<open>is_space\<close> is
  \<open>str.isspace\<close> on the ASCII range (which also is what \<open>\s\<close>, \<open>str.strip\<close> and
  \<open>str.split\<close> use), \<open>is_word\<close> is \<open>\w\<close> and \<open>is_digit\<close> is \<open>\d\<close>. \<open>k in s\<close> on
  strings is \<^const>\<open>sublist\<close> (a contiguous occurrence).
\<close>

definition lower_chr :: "char \<Rightarrow> char" where
  "lower_chr c =
     (case map_of (zip ''ABCDEFGHIJKLMNOPQRSTUVWXYZ'' ''abcdefghijklmnopqrstuvwxyz'') c of
        Some d \<Rightarrow> d
      | None \<Rightarrow> c)"

definition lower :: "string \<Rightarrow> string" where
  "lower s = map lower_chr s"

definition is_space :: "char \<Rightarrow> bool" where
  "is_space c = (c \<in> set [CHR '' '', CHR 0x09, CHR 0x0A, CHR 0x0B, CHR 0x0C, CHR 0x0D,
      CHR 0x1C, CHR 0x1D, CHR 0x1E, CHR 0x1F])"

definition is_digit :: "char \<Rightarrow> bool" where
  "is_digit c = (c \<in> set ''0123456789'')"

definition is_word :: "char \<Rightarrow> bool" where
  "is_word c = (c \<in> set ''abcdefghijklmnopqrstuvwxyzABCDEFGHIJKLMNOPQRSTUVWXYZ0123456789_'')"

definition strip :: "string \<Rightarrow> string" where
  "strip s = rev (dropWhile is_space (rev (dropWhile is_space s)))"

text \<open>\<open>s.split()\<close>: the maximal runs of non-whitespace characters, in order.\<close>

fun split_acc :: "string \<Rightarrow> string \<Rightarrow> string list" where
  "split_acc w [] = (if w = [] then [] else [rev w])"
| "split_acc w (c # cs) =
     (if is_space c then (if w = [] then split_acc [] cs else rev w # split_acc [] cs)
      else split_acc (c # w) cs)"

definition split_ws :: "string \<Rightarrow> string list" where
  "split_ws s = split_acc [] s"

section \<open>Regular expressions as the \<open>re\<close> module matches them\<close>

text \<open>
  The patterns of the program are written in this syntax tree. A group whose captured
  text is never read is plain bracketing; \<open>Grp\<close> is the one group whose text is read with
  \<open>group(1)\<close>. \<open>Star\<close> is the greedy \<open>*\<close>, \<open>LazyStar\<close> is \<open>*?\<close>; \<open>r+\<close> and \<open>r?\<close> are
  derived. \<open>Dot\<close> is \<open>.\<close>, \<open>WordB\<close> is \<open>\b\<close>.
\<close>

datatype atom = Lit char | Dot | Space | Word | Digit | OneOf string | Range char char

datatype regex =
    Eps
  | Atom atom
  | WordB
  | Seq regex regex
  | Alt regex regex
  | Star regex
  | LazyStar regex
  | Grp regex

record flags =
  ignorecase :: bool
  dotall :: bool

definition no_flags :: flags where
  "no_flags = \<lparr>ignorecase = False, dotall = False\<rparr>"

definition Plus :: "regex \<Rightarrow> regex" where
  "Plus r = Seq r (Star r)"

definition Opt :: "regex \<Rightarrow> regex" where
  "Opt r = Alt r Eps"

definition Str :: "string \<Rightarrow> regex" where
  "Str s = foldr (\<lambda>c r. Seq (Atom (Lit c)) r) s Eps"

definition Seqs :: "regex list \<Rightarrow> regex" where
  "Seqs rs = foldr Seq rs Eps"

fun Alts :: "regex list \<Rightarrow> regex" where
  "Alts [] = Eps"
| "Alts [r] = r"
| "Alts (r # rs) = Alt r (Alts rs)"

definition Words :: "string list \<Rightarrow> regex" where
  "Words ws = Alts (map Str ws)"

definition upper_chr :: "char \<Rightarrow> char" where
  "upper_chr c =
     (case map_of (zip ''abcdefghijklmnopqrstuvwxyz'' ''ABCDEFGHIJKLMNOPQRSTUVWXYZ'') c of
        Some d \<Rightarrow> d
      | None \<Rightarrow> c)"

definition in_range :: "char \<Rightarrow> char \<Rightarrow> char \<Rightarrow> bool" where
  "in_range a b c = (of_char a \<le> (of_char c :: nat) \<and> (of_char c :: nat) \<le> of_char b)"

fun atom_match :: "flags \<Rightarrow> atom \<Rightarrow> char \<Rightarrow> bool" where
  "atom_match fl (Lit a) c = (if ignorecase fl then lower_chr a = lower_chr c else a = c)"
| "atom_match fl Dot c = (dotall fl \<or> c \<noteq> CHR 0x0A)"
| "atom_match fl Space c = is_space c"
| "atom_match fl Word c = is_word c"
| "atom_match fl Digit c = is_digit c"
| "atom_match fl (OneOf cs) c =
     (if ignorecase fl then ((lower_chr c) \<in> set (map lower_chr cs)) else (c \<in> set cs))"
| "atom_match fl (Range a b) c =
     (if ignorecase fl then in_range a b c \<or> in_range a b (lower_chr c) \<or> in_range a b (upper_chr c)
      else in_range a b c)"

text \<open>
  A matching position: the character just before it (for \<open>\b\<close>), the text still to be
  read, and the text of the group once it has closed.
\<close>

type_synonym cfg = "char option \<times> string \<times> string option"

definition rest :: "cfg \<Rightarrow> string" where
  "rest c = fst (snd c)"

definition at_boundary :: "cfg \<Rightarrow> bool" where
  "at_boundary c =
     ((case fst c of None \<Rightarrow> False | Some p \<Rightarrow> is_word p)
      \<noteq> (case rest c of [] \<Rightarrow> False | n # _ \<Rightarrow> is_word n))"

definition progress :: "cfg \<Rightarrow> cfg list \<Rightarrow> cfg list" where
  "progress c cs = filter (\<lambda>c'. length (rest c') < length (rest c)) cs"

text \<open>
  Repetition, with as many rounds as characters are left (every round kept reads at least
  one). The results are in the order in which a backtracking matcher tries them: the
  greedy star first goes on, the lazy star first stops.
\<close>

fun iter_greedy :: "nat \<Rightarrow> (cfg \<Rightarrow> cfg list) \<Rightarrow> cfg \<Rightarrow> cfg list" where
  "iter_greedy 0 f c = [c]"
| "iter_greedy (Suc n) f c = concat (map (iter_greedy n f) (progress c (f c))) @ [c]"

fun iter_lazy :: "nat \<Rightarrow> (cfg \<Rightarrow> cfg list) \<Rightarrow> cfg \<Rightarrow> cfg list" where
  "iter_lazy 0 f c = [c]"
| "iter_lazy (Suc n) f c = c # concat (map (iter_lazy n f) (progress c (f c)))"

definition close_group :: "cfg \<Rightarrow> cfg \<Rightarrow> cfg" where
  "close_group c c' =
     (fst c', rest c', Some (take (length (rest c) - length (rest c')) (rest c)))"

text \<open>All the ways the pattern matches at a position, best first.\<close>

primrec rmatch :: "flags \<Rightarrow> regex \<Rightarrow> cfg \<Rightarrow> cfg list" where
  "rmatch fl Eps = (\<lambda>c. [c])"
| "rmatch fl (Atom a) =
     (\<lambda>c. case rest c of
             [] \<Rightarrow> []
           | x # xs \<Rightarrow> if atom_match fl a x then [(Some x, xs, snd (snd c))] else [])"
| "rmatch fl WordB = (\<lambda>c. if at_boundary c then [c] else [])"
| "rmatch fl (Seq r s) = (\<lambda>c. concat (map (rmatch fl s) (rmatch fl r c)))"
| "rmatch fl (Alt r s) = (\<lambda>c. rmatch fl r c @ rmatch fl s c)"
| "rmatch fl (Star r) = (\<lambda>c. iter_greedy (length (rest c)) (rmatch fl r) c)"
| "rmatch fl (LazyStar r) = (\<lambda>c. iter_lazy (length (rest c)) (rmatch fl r) c)"
| "rmatch fl (Grp r) = (\<lambda>c. map (close_group c) (rmatch fl r c))"

text \<open>\<open>re.search\<close>: the best match at the leftmost position that has one.\<close>

fun search_from :: "flags \<Rightarrow> regex \<Rightarrow> char option \<Rightarrow> string \<Rightarrow> cfg option" where
  "search_from fl r p [] =
     (case rmatch fl r (p, [], None) of [] \<Rightarrow> None | m # _ \<Rightarrow> Some m)"
| "search_from fl r p (x # xs) =
     (case rmatch fl r (p, x # xs, None) of
        [] \<Rightarrow> search_from fl r (Some x) xs
      | m # _ \<Rightarrow> Some m)"

definition re_search :: "flags \<Rightarrow> regex \<Rightarrow> string \<Rightarrow> cfg option" where
  "re_search fl r s = search_from fl r None s"

definition matches :: "flags \<Rightarrow> regex \<Rightarrow> string \<Rightarrow> bool" where
  "matches fl r s = (re_search fl r s \<noteq> None)"

definition group1 :: "cfg \<Rightarrow> string" where
  "group1 m = (case snd (snd m) of None \<Rightarrow> [] | Some g \<Rightarrow> g)"

text \<open>
  \<open>re.sub(pattern, "", s)\<close>: every match found from left to right is cut out, and the
  search goes on behind it. A position where the best match is empty keeps its character
  (the patterns of \<open>sanitize_response\<close> always read their opening tag, so they never
  match the empty text).
\<close>

function sub_from :: "flags \<Rightarrow> regex \<Rightarrow> char option \<Rightarrow> string \<Rightarrow> string" where
  "sub_from fl r p [] = []"
| "sub_from fl r p (x # xs) =
     (case rmatch fl r (p, x # xs, None) of
        [] \<Rightarrow> x # sub_from fl r (Some x) xs
      | m # _ \<Rightarrow>
          if length (rest m) < length (x # xs) then sub_from fl r (fst m) (rest m)
          else x # sub_from fl r (Some x) xs)"
  by pat_completeness auto
termination
  by (relation "measure (\<lambda>(fl, r, p, s). length s)") auto

definition re_sub :: "flags \<Rightarrow> regex \<Rightarrow> string \<Rightarrow> string" where
  "re_sub fl r s = sub_from fl r None s"

text \<open>
  A matching position with all its text in lowercase: the positions the matcher goes
  through on \<open>s.lower()\<close>, from those it goes through on \<open>s\<close>.
\<close>

abbreviation lower_cfg :: "cfg \<Rightarrow> cfg" where
  "lower_cfg c \<equiv>
     (map_option lower_chr (fst c), map lower_chr (rest c), map_option (map lower_chr) (snd (snd c)))"

section \<open>Guardrails (app/agents/guardrails.py)\<close>

definition ALLOWED_TOPICS :: "string list" where
  "ALLOWED_TOPICS =
     [''training'', ''video'', ''course'', ''completed'', ''finished'', ''status'',
      ''progress'', ''cybersecurity'', ''security'', ''phishing'', ''password'',
      ''data protection'', ''incident'', ''response'', ''employee'', ''learning'',
      ''certification'', ''module'', ''lesson'', ''duration'', ''time'', ''hours'',
      ''minutes'', ''started'', ''completion'', ''percentage'', ''ciso'', ''department'']"

definition FORBIDDEN_KEYWORDS :: "string list" where
  "FORBIDDEN_KEYWORDS =
     [''update'', ''delete'', ''insert'', ''drop'', ''alter'', ''truncate'', ''create'',
      ''modify'', ''change'', ''set'', ''exec'', ''execute'',
      ''system'', ''shell'', ''cmd'', ''bash'', ''powershell'', ''eval'', ''compile'',
      ''password='', ''credential'', ''api_key'', ''secret'', ''token'',
      ''ignore previous'', ''ignore instructions'', ''ignore prompt'',
      ''new instructions'', ''system prompt'', ''override'']"

text \<open>
  The six patterns of \<open>SQL_INJECTION_PATTERNS\<close>, in their order:
  \<^verbatim>\<open>(\b(union|select|from|where)\b.*\b(select|from|where)\b)\<close>,
  \<^verbatim>\<open>(;|\-\-|\/\*|\*\/)\<close>,
  \<^verbatim>\<open>(\b(or|and)\b.*[=<>].*['\"])\<close>,
  \<^verbatim>\<open>(drop\s+table)\<close>, \<^verbatim>\<open>(delete\s+from)\<close>, \<^verbatim>\<open>(update\s+\w+\s+set)\<close>.
\<close>

definition SQL_INJECTION_PATTERNS :: "regex list" where
  "SQL_INJECTION_PATTERNS =
     [Seqs [WordB, Words [''union'', ''select'', ''from'', ''where''], WordB, Star (Atom Dot),
            WordB, Words [''select'', ''from'', ''where''], WordB],
      Words ['';'', ''--'', ''/*'', ''*/''],
      Seqs [WordB, Words [''or'', ''and''], WordB, Star (Atom Dot), Atom (OneOf ''=<>''),
            Star (Atom Dot), Atom (OneOf [CHR 0x27, CHR 0x22])],
      Seqs [Str ''drop'', Plus (Atom Space), Str ''table''],
      Seqs [Str ''delete'', Plus (Atom Space), Str ''from''],
      Seqs [Str ''update'', Plus (Atom Space), Plus (Atom Word), Plus (Atom Space), Str ''set'']]"

definition IGNORECASE :: flags where
  "IGNORECASE = \<lparr>ignorecase = True, dotall = False\<rparr>"

definition off_topic_message :: string where
  "off_topic_message = ''This query appears to be unrelated to cybersecurity training. Please ask about training videos, completion status, or employee progress.''"

definition forbidden_message :: string where
  "forbidden_message = ''This query contains forbidden operations. I can only provide read-only information about training status.''"

definition injection_message :: string where
  "injection_message = ''Invalid query format detected. Please use natural language questions.''"

definition is_training_related :: "string \<Rightarrow> bool \<times> string" where
  "is_training_related query =
     (let query_lower = lower query;
          has_allowed_topic = list_ex (\<lambda>keyword. sublist keyword query_lower) ALLOWED_TOPICS
      in if \<not> has_allowed_topic \<and> length (split_ws query) > 3
         then (False, off_topic_message)
         else (True, []))"

definition check_forbidden_keywords :: "string \<Rightarrow> bool \<times> string" where
  "check_forbidden_keywords query =
     (let query_lower = lower query
      in if list_ex (\<lambda>keyword. sublist keyword query_lower) FORBIDDEN_KEYWORDS
         then (False, forbidden_message)
         else (True, []))"

definition check_sql_injection :: "string \<Rightarrow> bool \<times> string" where
  "check_sql_injection query =
     (let query_lower = lower query
      in if list_ex (\<lambda>pattern. matches IGNORECASE pattern query_lower) SQL_INJECTION_PATTERNS
         then (False, injection_message)
         else (True, []))"

definition validate_query :: "string \<Rightarrow> bool \<times> string" where
  "validate_query query =
     (if query = [] \<or> strip query = [] then (False, ''Please provide a query.'')
      else if length query > 1000
        then (False, ''Query is too long. Please keep questions concise.'')
      else (case check_sql_injection query of
          (False, reason) \<Rightarrow> (False, reason)
        | (True, _) \<Rightarrow>
      (case check_forbidden_keywords query of
          (False, reason) \<Rightarrow> (False, reason)
        | (True, _) \<Rightarrow>
      (case is_training_related query of
          (False, reason) \<Rightarrow> (False, reason)
        | (True, _) \<Rightarrow> (True, [])))))"

text \<open>
  \<open>sanitize_response\<close> removes, one pattern after the other,
  \<^verbatim>\<open>\[SYSTEM\].*?\[/SYSTEM\]\<close>, \<^verbatim>\<open><system>.*?</system>\<close> and a fenced block
  opened with three backquotes and \<open>sql\<close>, under \<open>re.IGNORECASE | re.DOTALL\<close>, then strips.
\<close>

definition IGNORECASE_DOTALL :: flags where
  "IGNORECASE_DOTALL = \<lparr>ignorecase = True, dotall = True\<rparr>"

definition patterns_to_remove :: "regex list" where
  "patterns_to_remove =
     [Seqs [Str ''[SYSTEM]'', LazyStar (Atom Dot), Str ''[/SYSTEM]''],
      Seqs [Str ''<system>'', LazyStar (Atom Dot), Str ''</system>''],
      Seqs [Str ''```sql'', LazyStar (Atom Dot), Str ''```'']]"

definition sanitize_response :: "string \<Rightarrow> string" where
  "sanitize_response response =
     strip (foldl (\<lambda>sanitized pattern. re_sub IGNORECASE_DOTALL pattern sanitized)
              response patterns_to_remove)"

section \<open>Intent parser (app/agents/intent_parser.py)\<close>

datatype Intent =
    CHECK_COMPLETION
  | LIST_MISSING_VIDEOS
  | LIST_COMPLETED_VIDEOS
  | VIDEO_DURATION
  | EMPLOYEE_STATUS
  | GLOBAL_SUMMARY
  | LIST_BY_STATUS
  | LIST_BY_VIDEO_COUNT
  | GENERAL_QUESTION
  | UNKNOWN

fun intent_value :: "Intent \<Rightarrow> string" where
  "intent_value CHECK_COMPLETION = ''check_completion''"
| "intent_value LIST_MISSING_VIDEOS = ''list_missing_videos''"
| "intent_value LIST_COMPLETED_VIDEOS = ''list_completed_videos''"
| "intent_value VIDEO_DURATION = ''video_duration''"
| "intent_value EMPLOYEE_STATUS = ''employee_status''"
| "intent_value GLOBAL_SUMMARY = ''global_summary''"
| "intent_value LIST_BY_STATUS = ''list_by_status''"
| "intent_value LIST_BY_VIDEO_COUNT = ''list_by_video_count''"
| "intent_value GENERAL_QUESTION = ''general_question''"
| "intent_value UNKNOWN = ''unknown''"

text \<open>
  Shorthands for the shapes the intent patterns are built from: \<open>B [...]\<close> is
  \<^verbatim>\<open>\b(a|b|...)\b\<close>, \<open>Any\<close> is \<^verbatim>\<open>.*\<close>, and \<open>Opt_end w c\<close> is the word \<open>w\<close> with an
  optional last letter \<open>c\<close> (\<^verbatim>\<open>videos?\<close> is \<open>Opt_end ''video'' CHR ''s''\<close>).
\<close>

definition B :: "regex list \<Rightarrow> regex" where
  "B rs = Seqs [WordB, Alts rs, WordB]"

definition Any :: regex where
  "Any = Star (Atom Dot)"

definition Opt_end :: "string \<Rightarrow> char \<Rightarrow> regex" where
  "Opt_end w c = Seq (Str w) (Opt (Atom (Lit c)))"

definition videos :: regex where
  "videos = Opt_end ''video'' CHR ''s''"

definition completed :: regex where
  "completed = Opt_end ''complete'' CHR ''d''"

definition employees :: regex where
  "employees = Opt_end ''employee'' CHR ''s''"

definition number_word :: regex where
  "number_word = Alts [Plus (Atom Digit), Str ''two'', Str ''three'', Str ''four'']"

text \<open>\<open>INTENT_PATTERNS\<close>: the dictionary in its insertion order, which the loop follows.\<close>

definition INTENT_PATTERNS :: "(Intent \<times> regex list) list" where
  "INTENT_PATTERNS =
   [(CHECK_COMPLETION,
      [Seqs [B [Str ''did'', Str ''have'', Str ''has'', Str ''completed'', Str ''finished'',
                Str ''done''], Any,
             B [Str ''training'', videos, Opt_end ''course'' CHR ''s'']],
       Seqs [B [Str ''training'', videos, Opt_end ''course'' CHR ''s''], Any,
             B [completed, Str ''finished'', Str ''done'']],
       Seqs [B [Str ''finished'', Str ''completed''], Any, B [Str ''all'', Str ''everything'']]]),
    (LIST_MISSING_VIDEOS,
      [Seqs [B [Str ''what'', Str ''which'', Str ''list''], Any,
             B [Str ''missing'', Opt_end ''not complete'' CHR ''d'', Str ''remaining'',
                Str ''left''], Any,
             B [videos]],
       Seqs [B [videos], Any,
             B [Str ''missing'', Opt_end ''not complete'' CHR ''d'', Str ''remaining'',
                Str ''left'']],
       Seqs [B [Str (''haven'' @ [CHR 0x27] @ ''t''), Str ''have not'',
                Str (''didn'' @ [CHR 0x27] @ ''t''), Str ''did not''], Any,
             B [Str ''complete'', Str ''finish'', Str ''watch'']],
       Seqs [B [Str ''need to'', Str ''have to'', Str ''must''], Any,
             B [Str ''complete'', Str ''finish'', Str ''watch'']]]),
    (LIST_COMPLETED_VIDEOS,
      [Seqs [B [Str ''what'', Str ''which'', Str ''list''], Any,
             B [completed, Str ''finished'', Str ''done'', Str ''watched''], Any,
             B [videos]],
       Seqs [B [videos], Any,
             B [completed, Str ''finished'', Str ''done'', Str ''watched'']],
       Seqs [B [Str ''show'', Str ''tell'', Str ''give''], Any,
             B [completed, Str ''finished'']]]),
    (VIDEO_DURATION,
      [Seqs [B [Str ''how long'', Str ''duration'', Str ''time'', Str ''minutes'', Str ''hours''],
             Any, B [Str ''video'', Str ''spent'', Str ''took'']],
       Seqs [B [Str ''video''], Any, B [Str ''duration'', Str ''time'', Str ''long'']],
       Seqs [B [Str ''spent''], Any, B [Str ''video'', Str ''training'']]]),
    (EMPLOYEE_STATUS,
      [B [Str ''status'', Str ''progress'', Str ''summary''],
       Seqs [B [Str ''what is'', Str ''show'', Str ''give'', Str ''tell''], Any,
             B [Str ''my'', Str ''their''], Any,
             B [Str ''status'', Str ''progress'']],
       B [Str ''completion'', Str ''percentage'', Str ''%'']]),
    (GLOBAL_SUMMARY,
      [B [Str ''all employees'', Str ''everyone'', Str ''global'', Str ''overall'',
          Str ''company'', Str ''organization''],
       Seqs [B [Str ''average'', Str ''mean'', Str ''statistics'', Str ''stats'', Str ''summary''],
             Any, B [Str ''all'', Str ''everyone'']],
       Seqs [B [Str ''fastest'', Str ''slowest'', Str ''longest'', Str ''shortest''], Any,
             B [Str ''employee'']]]),
    (LIST_BY_STATUS,
      [Seqs [B [Str ''list'', Str ''show'', Str ''who''], Any,
             B [Str ''not started'', Str ''in progress'', Str ''finished'', Str ''completed'']],
       Seqs [B [employees], Any,
             B [Str ''not started'', Str ''in progress'', Str ''finished'', Str ''completed'']]]),
    (LIST_BY_VIDEO_COUNT,
      [Seqs [B [Str ''how many'', Str ''who'', Str ''list''], Any,
             B [completed, Str ''finished'', Str ''watched''], Any,
             B [number_word], Any,
             B [Str ''or more'', Str ''or less'', videos]],
       Seqs [B [employees, Str ''people'', Str ''users''], Any,
             B [number_word], Any,
             B [Str ''or more'', Str ''or less''], Any,
             B [videos]]])]"

definition classify_intent :: "string \<Rightarrow> Intent" where
  "classify_intent query =
     (let query_lower = lower query
      in case find (\<lambda>(intent, patterns).
                      list_ex (\<lambda>pattern. matches IGNORECASE pattern query_lower) patterns)
                   INTENT_PATTERNS of
           Some (intent, _) \<Rightarrow> intent
         | None \<Rightarrow> GENERAL_QUESTION)"

text \<open>\<open>int(s)\<close> on a string of decimal digits.\<close>

definition digit_val :: "char \<Rightarrow> int" where
  "digit_val c = int (of_char c) - 48"

definition int_of_digits :: "string \<Rightarrow> int" where
  "int_of_digits s = foldl (\<lambda>n c. 10 * n + digit_val c) 0 s"

text \<open>
  The five shapes of \<open>extract_video_number\<close>: \<^verbatim>\<open>video\s+(\d+)\<close>,
  \<^verbatim>\<open>video\s+number\s+(\d+)\<close>, \<^verbatim>\<open>module\s+(\d+)\<close>, \<^verbatim>\<open>lesson\s+(\d+)\<close>, \<^verbatim>\<open>#(\d+)\<close>.
\<close>

definition video_number_patterns :: "regex list" where
  "video_number_patterns =
     [Seqs [Str ''video'', Plus (Atom Space), Grp (Plus (Atom Digit))],
      Seqs [Str ''video'', Plus (Atom Space), Str ''number'', Plus (Atom Space),
            Grp (Plus (Atom Digit))],
      Seqs [Str ''module'', Plus (Atom Space), Grp (Plus (Atom Digit))],
      Seqs [Str ''lesson'', Plus (Atom Space), Grp (Plus (Atom Digit))],
      Seqs [Str ''#'', Grp (Plus (Atom Digit))]]"

fun video_number_loop :: "regex list \<Rightarrow> string \<Rightarrow> int option" where
  "video_number_loop [] s = None"
| "video_number_loop (pattern # patterns) s =
     (case re_search no_flags pattern s of
        None \<Rightarrow> video_number_loop patterns s
      | Some m \<Rightarrow>
          (let num = int_of_digits (group1 m)
           in if 1 \<le> num \<and> num \<le> 5 then Some num else video_number_loop patterns s))"

definition extract_video_number :: "string \<Rightarrow> int option" where
  "extract_video_number query = video_number_loop video_number_patterns (lower query)"

definition extract_status :: "string \<Rightarrow> string option" where
  "extract_status query =
     (let query_lower = lower query
      in if sublist ''not started'' query_lower
            \<or> sublist (''haven'' @ [CHR 0x27] @ ''t started'') query_lower
         then Some ''NOT_STARTED''
         else if sublist ''in progress'' query_lower \<or> sublist ''ongoing'' query_lower
                 \<or> sublist ''started'' query_lower
         then Some ''IN_PROGRESS''
         else if sublist ''finished'' query_lower \<or> sublist ''completed'' query_lower
                 \<or> sublist ''done'' query_lower
         then Some ''FINISHED''
         else None)"

definition extract_employee_mention :: "string \<Rightarrow> string" where
  "extract_employee_mention query =
     (let query_lower = lower query
      in if list_ex (\<lambda>word. sublist word query_lower) [''my'', ''i'', ''me'', ''myself'']
         then ''self''
         else if list_ex (\<lambda>word. sublist word query_lower)
                   [''his'', ''her'', ''their'', ''employee'']
         then ''other''
         else ''self'')"

text \<open>
  \<open>extract_employee_name\<close>, on the query as typed. \<open>capitalized_name\<close> is
  \<^verbatim>\<open>[A-Z][a-z]+(?:\s+[A-Z][a-z]+)+\<close>; the three shapes are
  \<^verbatim>\<open>\b(?:did|has|for|about)\s+(NAME)\<close>, \<^verbatim>\<open>\b(NAME)\'s\<close> and
  \<^verbatim>\<open>\b(NAME)\s+(?:status|progress|training|finish)\<close>.
\<close>

definition capitalized :: regex where
  "capitalized = Seq (Atom (Range CHR ''A'' CHR ''Z'')) (Plus (Atom (Range CHR ''a'' CHR ''z'')))"

definition capitalized_name :: regex where
  "capitalized_name = Seq capitalized (Plus (Seq (Plus (Atom Space)) capitalized))"

definition employee_name_patterns :: "regex list" where
  "employee_name_patterns =
     [Seqs [WordB, Words [''did'', ''has'', ''for'', ''about''], Plus (Atom Space),
            Grp capitalized_name],
      Seqs [WordB, Grp capitalized_name, Str ([CHR 0x27] @ ''s'')],
      Seqs [WordB, Grp capitalized_name, Plus (Atom Space),
            Words [''status'', ''progress'', ''training'', ''finish'']]]"

fun employee_name_loop :: "regex list \<Rightarrow> string \<Rightarrow> string option" where
  "employee_name_loop [] s = None"
| "employee_name_loop (pattern # patterns) s =
     (case re_search no_flags pattern s of
        None \<Rightarrow> employee_name_loop patterns s
      | Some m \<Rightarrow> Some (group1 m))"

definition extract_employee_name :: "string \<Rightarrow> string option" where
  "extract_employee_name query = employee_name_loop employee_name_patterns query"

record video_count_filter =
  count :: int
  operator :: string

definition word_to_num :: "string \<rightharpoonup> int" where
  "word_to_num = map_of [(''one'', 1), (''two'', 2), (''three'', 3), (''four'', 4), (''five'', 5)]"

definition isdigit :: "string \<Rightarrow> bool" where
  "isdigit s = (s \<noteq> [] \<and> list_all is_digit s)"

definition extract_video_count_filter :: "string \<Rightarrow> video_count_filter option" where
  "extract_video_count_filter query =
     (let query_lower = lower query
      in case re_search no_flags
                (Seqs [WordB, Grp (Alts [Plus (Atom Digit), Str ''one'', Str ''two'', Str ''three'',
                                         Str ''four'', Str ''five'']), WordB])
                query_lower of
           None \<Rightarrow> None
         | Some number_match \<Rightarrow>
             (let num_str = group1 number_match
              in case (case word_to_num num_str of
                         Some n \<Rightarrow> Some n
                       | None \<Rightarrow> if isdigit num_str then Some (int_of_digits num_str) else None) of
                   None \<Rightarrow> None
                 | Some cnt \<Rightarrow>
                     Some \<lparr>count = cnt,
                           operator =
                             (if sublist ''or more'' query_lower \<or> sublist ''at least'' query_lower
                              then ''>=''
                              else if sublist ''or less'' query_lower \<or> sublist ''at most'' query_lower
                              then ''<=''
                              else if sublist ''less than'' query_lower
                                      \<or> sublist ''fewer than'' query_lower
                              then ''<''
                              else if sublist ''more than'' query_lower then ''>''
                              else if sublist ''exactly'' query_lower then ''==''
                              else ''>='')\<rparr>))"

text \<open>
  The dictionary \<open>parse\<close> returns, its keys \<open>intent\<close>, \<open>query\<close>, \<open>video_number\<close>,
  \<open>status\<close>, \<open>employee_mention\<close>, \<open>employee_name\<close> and \<open>video_count_filter\<close> prefixed
  with \<open>p_\<close>.
\<close>

record parsed =
  p_intent :: Intent
  p_query :: string
  p_video_number :: "int option"
  p_status :: "string option"
  p_employee_mention :: string
  p_employee_name :: "string option"
  p_video_count_filter :: "video_count_filter option"

definition parse :: "string \<Rightarrow> parsed" where
  "parse query =
     \<lparr>p_intent = classify_intent query,
      p_query = query,
      p_video_number = extract_video_number query,
      p_status = extract_status query,
      p_employee_mention = extract_employee_mention query,
      p_employee_name = extract_employee_name query,
      p_video_count_filter = extract_video_count_filter query\<rparr>"

definition is_ciso_query :: "string \<Rightarrow> bool" where
  "is_ciso_query query =
     (let query_lower = lower query
      in list_ex (\<lambda>keyword. sublist keyword query_lower)
           [''all employees'', ''everyone'', ''global'', ''overall'', ''company'',
            ''organization'', ''statistics'', ''report'', ''summary of all'',
            ''fastest'', ''slowest'', ''average'', ''list employees''])"

section \<open>Employee records (app/models/employee.py)\<close>

text \<open>
  A \<open>datetime\<close> is a point in time in seconds, and a \<open>float\<close> is the number it stands
  for: both are rationals. \<open>round(x, 2)\<close> rounds to the nearest hundredth, a tie to the
  even one.
\<close>

type_synonym datetime = rat

definition round_half_even :: "rat \<Rightarrow> int" where
  "round_half_even x =
     (let f = \<lfloor>x\<rfloor>; d = x - of_int f
      in if d < 1 / 2 then f
         else if 1 / 2 < d then f + 1
         else if even f then f else f + 1)"

definition py_round2 :: "rat \<Rightarrow> rat" where
  "py_round2 x = of_int (round_half_even (x * 100)) / 100"

record employee =
  EMPLOYEE_ID :: string
  EMPLOYEE_NAME :: string
  EMPLOYEE_LAST_NAME :: string
  EMPLOYEE_DIVISION :: string
  START_FIRST_VIDEO_DATE :: "datetime option"
  FINISH_FIRST_VIDEO_DATE :: "datetime option"
  START_SECOND_VIDEO_DATE :: "datetime option"
  FINISH_SECOND_VIDEO_DATE :: "datetime option"
  START_THIRD_VIDEO_DATE :: "datetime option"
  FINISH_THIRD_VIDEO_DATE :: "datetime option"
  START_FOURTH_VIDEO_DATE :: "datetime option"
  FINISH_FOURTH_VIDEO_DATE :: "datetime option"

definition full_name :: "employee \<Rightarrow> string" where
  "full_name e = EMPLOYEE_NAME e @ '' '' @ EMPLOYEE_LAST_NAME e"

text \<open>\<open>video_map.get(video_num)\<close>: the entry of the video, \<open>None\<close> for any other number.\<close>

definition get_video_completed :: "employee \<Rightarrow> int \<Rightarrow> bool" where
  "get_video_completed e video_num =
     (let video_map = map_of
            [(1, FINISH_FIRST_VIDEO_DATE e),
             (2, FINISH_SECOND_VIDEO_DATE e),
             (3, FINISH_THIRD_VIDEO_DATE e),
             (4, FINISH_FOURTH_VIDEO_DATE e)];
          finish_date = (case video_map video_num of None \<Rightarrow> None | Some d \<Rightarrow> d)
      in finish_date \<noteq> None)"

definition get_video_duration :: "employee \<Rightarrow> int \<Rightarrow> rat" where
  "get_video_duration e video_num =
     (let video_map = map_of
            [(1, (START_FIRST_VIDEO_DATE e, FINISH_FIRST_VIDEO_DATE e)),
             (2, (START_SECOND_VIDEO_DATE e, FINISH_SECOND_VIDEO_DATE e)),
             (3, (START_THIRD_VIDEO_DATE e, FINISH_THIRD_VIDEO_DATE e)),
             (4, (START_FOURTH_VIDEO_DATE e, FINISH_FOURTH_VIDEO_DATE e))]
      in case (case video_map video_num of None \<Rightarrow> (None, None) | Some sf \<Rightarrow> sf) of
           (Some start, Some finish) \<Rightarrow> py_round2 ((finish - start) / 60)
         | _ \<Rightarrow> 0)"

text \<open>\<open>range(1, 5)\<close>.\<close>

definition video_range :: "int list" where
  "video_range = [1, 2, 3, 4]"

definition get_completed_videos :: "employee \<Rightarrow> int list" where
  "get_completed_videos e = filter (\<lambda>i. get_video_completed e i) video_range"

definition get_missing_videos :: "employee \<Rightarrow> int list" where
  "get_missing_videos e = filter (\<lambda>i. \<not> get_video_completed e i) video_range"

definition get_training_status :: "employee \<Rightarrow> string" where
  "get_training_status e =
     (let completed = get_completed_videos e
      in if length completed = 0 then ''NOT_STARTED''
         else if length completed = 4 then ''FINISHED''
         else ''IN_PROGRESS'')"

definition completion_percentage :: "employee \<Rightarrow> rat" where
  "completion_percentage e =
     (let completed = length (get_completed_videos e)
      in py_round2 ((of_nat completed / 4) * 100))"

definition total_time :: "employee \<Rightarrow> rat" where
  "total_time e = sum_list (map (get_video_duration e) video_range)"

definition started_at :: "employee \<Rightarrow> datetime option" where
  "started_at e =
     (let dates = [START_FIRST_VIDEO_DATE e, START_SECOND_VIDEO_DATE e,
                   START_THIRD_VIDEO_DATE e, START_FOURTH_VIDEO_DATE e];
          valid_dates = concat (map (\<lambda>d. case d of None \<Rightarrow> [] | Some t \<Rightarrow> [t]) dates)
      in case valid_dates of [] \<Rightarrow> None | t # ts \<Rightarrow> Some (foldl min t ts))"

definition completed_at :: "employee \<Rightarrow> datetime option" where
  "completed_at e =
     (if get_training_status e = ''FINISHED'' then
        (let dates = [FINISH_FIRST_VIDEO_DATE e, FINISH_SECOND_VIDEO_DATE e,
                      FINISH_THIRD_VIDEO_DATE e, FINISH_FOURTH_VIDEO_DATE e];
             valid_dates = concat (map (\<lambda>d. case d of None \<Rightarrow> [] | Some t \<Rightarrow> [t]) dates)
         in case valid_dates of [] \<Rightarrow> None | t # ts \<Rightarrow> Some (foldl max t ts))
      else None)"

section \<open>Training service (app/services/training_service.py)\<close>

text \<open>
  The exceptions the arithmetic and the aggregates of \<open>get_global_summary\<close> can raise:
  a division by zero, and \<open>min\<close> or \<open>max\<close> of an empty sequence.
\<close>

datatype py_error = ZeroDivisionError | ValueError

definition py_div :: "rat \<Rightarrow> nat \<Rightarrow> py_error + rat" where
  "py_div a n = (if n = 0 then Inl ZeroDivisionError else Inr (a / of_nat n))"

text \<open>\<open>min\<close> and \<open>max\<close> with a key: the first of the least (greatest) elements.\<close>

fun py_min_by :: "('a \<Rightarrow> rat) \<Rightarrow> 'a list \<Rightarrow> py_error + 'a" where
  "py_min_by key [] = Inl ValueError"
| "py_min_by key (x # xs) = Inr (foldl (\<lambda>best y. if key y < key best then y else best) x xs)"

fun py_max_by :: "('a \<Rightarrow> rat) \<Rightarrow> 'a list \<Rightarrow> py_error + 'a" where
  "py_max_by key [] = Inl ValueError"
| "py_max_by key (x # xs) = Inr (foldl (\<lambda>best y. if key best < key y then y else best) x xs)"

text \<open>
  The entries \<open>fastest_employee\<close> and \<open>slowest_employee\<close> (keys \<open>id\<close>, \<open>name\<close>,
  \<open>time_minutes\<close>) and the summary dictionary.
\<close>

record ranked =
  ranked_id :: string
  ranked_name :: string
  time_minutes :: rat

record summary =
  total_employees :: nat
  finished_employees_count :: nat
  not_started_count :: nat
  in_progress_count :: nat
  max_time_minutes :: rat
  min_time_minutes :: rat
  average_time_minutes :: rat
  fastest_employee :: "ranked option"
  slowest_employee :: "ranked option"

definition ranked_of :: "employee \<Rightarrow> ranked" where
  "ranked_of e = \<lparr>ranked_id = EMPLOYEE_ID e, ranked_name = full_name e, time_minutes = total_time e\<rparr>"

text \<open>\<open>all_employees\<close> is what \<open>self.db.query(Employee).all()\<close> returns.\<close>

definition get_global_summary :: "employee list \<Rightarrow> py_error + summary" where
  "get_global_summary all_employees =
     (if all_employees = [] then
        Inr \<lparr>total_employees = 0, finished_employees_count = 0, not_started_count = 0,
             in_progress_count = 0, max_time_minutes = 0, min_time_minutes = 0,
             average_time_minutes = 0, fastest_employee = None, slowest_employee = None\<rparr>
      else
        (let finished_employees = filter (\<lambda>e. get_training_status e = ''FINISHED'') all_employees;
             not_started = filter (\<lambda>e. get_training_status e = ''NOT_STARTED'') all_employees;
             in_progress = filter (\<lambda>e. get_training_status e = ''IN_PROGRESS'') all_employees
         in if finished_employees = [] then
              Inr \<lparr>total_employees = length all_employees, finished_employees_count = 0,
                   not_started_count = length not_started,
                   in_progress_count = length in_progress,
                   max_time_minutes = 0, min_time_minutes = 0,
                   average_time_minutes = 0, fastest_employee = None, slowest_employee = None\<rparr>
            else
              (let times = map total_time finished_employees
               in case py_max_by id times of Inl err \<Rightarrow> Inl err | Inr max_time \<Rightarrow>
                 (case py_min_by id times of Inl err \<Rightarrow> Inl err | Inr min_time \<Rightarrow>
                 (case py_div (sum_list times) (length times) of Inl err \<Rightarrow> Inl err | Inr avg_time \<Rightarrow>
                 (case py_min_by total_time finished_employees of Inl err \<Rightarrow> Inl err | Inr fastest \<Rightarrow>
                 (case py_max_by total_time finished_employees of Inl err \<Rightarrow> Inl err | Inr slowest \<Rightarrow>
                    Inr \<lparr>total_employees = length all_employees,
                         finished_employees_count = length finished_employees,
                         not_started_count = length not_started,
                         in_progress_count = length in_progress,
                         max_time_minutes = max_time,
                         min_time_minutes = min_time,
                         average_time_minutes = py_round2 avg_time,
                         fastest_employee = Some (ranked_of fastest),
                         slowest_employee = Some (ranked_of slowest)\<rparr>)))))))"

section \<open>Sessions and authentication (app/models/session.py, app/services/auth_service.py)\<close>

text \<open>
  \<open>UserSession\<close>, its fields prefixed with \<open>s_\<close> (the free-form \<open>metadata\<close> dictionary,
  which no method reads, is left out). The session store is a dictionary from
  session ids to sessions. The clock \<open>datetime.utcnow()\<close> is an input of the program:
  \<open>utcnow env k\<close> is what its \<open>k\<close>-th reading returns, and the state counts the readings.
\<close>

record user_session =
  s_session_id :: string
  s_employee_id :: "int option"
  s_employee_name :: "string option"
  s_is_ciso :: bool
  s_created_at :: datetime
  s_last_activity :: datetime

record env =
  utcnow :: "nat \<Rightarrow> datetime"
  session_timeout_minutes :: rat

record world =
  sessions :: "string \<rightharpoonup> user_session"
  clock_reads :: nat

definition session_is_authenticated :: "user_session \<Rightarrow> bool" where
  "session_is_authenticated s = (s_employee_id s \<noteq> None \<and> s_employee_name s \<noteq> None)"

definition is_expired :: "env \<Rightarrow> nat \<Rightarrow> user_session \<Rightarrow> bool" where
  "is_expired ev k s =
     (let timeout = session_timeout_minutes ev * 60
      in utcnow ev k - s_last_activity s > timeout)"

text \<open>\<open>SessionStore.get_session\<close>: an expired session is removed and reported as missing.\<close>

definition get_session :: "env \<Rightarrow> string \<Rightarrow> world \<Rightarrow> user_session option \<times> world" where
  "get_session ev session_id w =
     (case sessions w session_id of
        None \<Rightarrow> (None, w)
      | Some s \<Rightarrow>
          (let w' = w\<lparr>clock_reads := Suc (clock_reads w)\<rparr>
           in if is_expired ev (clock_reads w) s
              then (None, w'\<lparr>sessions := (sessions w)(session_id := None)\<rparr>)
              else (Some s, w')))"

definition is_authenticated :: "env \<Rightarrow> string \<Rightarrow> world \<Rightarrow> bool \<times> world" where
  "is_authenticated ev session_id w =
     (case get_session ev session_id w of
        (None, w') \<Rightarrow> (False, w')
      | (Some s, w') \<Rightarrow> (session_is_authenticated s, w'))"

definition is_ciso :: "env \<Rightarrow> string \<Rightarrow> world \<Rightarrow> bool \<times> world" where
  "is_ciso ev session_id w =
     (case get_session ev session_id w of
        (None, w') \<Rightarrow> (False, w')
      | (Some s, w') \<Rightarrow> (s_is_ciso s, w'))"

definition get_authenticated_employee_id :: "env \<Rightarrow> string \<Rightarrow> world \<Rightarrow> int option \<times> world" where
  "get_authenticated_employee_id ev session_id w =
     (case get_session ev session_id w of
        (None, w') \<Rightarrow> (None, w')
      | (Some s, w') \<Rightarrow> (if session_is_authenticated s then s_employee_id s else None, w'))"

section \<open>The agent's pipeline (app/agents/training_agent.py)\<close>

text \<open>
  \<open>process_query\<close> with the two collaborators it hands the accepted, authenticated query
  to: \<open>_get_context_data\<close> (the reads of the record store) and \<open>_call_llm\<close> (the renderer).
  Beside the response dictionary (a key the dictionary does not have is \<open>None\<close>) and the
  session store it leaves behind, the model returns the steps of the pipeline that ran, in
  order.
\<close>

record 'c collaborators =
  get_context_data :: "Intent \<Rightarrow> parsed \<Rightarrow> int option \<Rightarrow> bool \<Rightarrow> 'c"
  call_llm :: "string \<Rightarrow> 'c \<Rightarrow> string"

record 'c reply =
  success :: bool
  response :: string
  intent :: "string option"
  context_data :: "'c option"
  requires_auth :: bool

datatype step =
    Validate_query
  | Check_authentication
  | Parse_intent
  | Check_ciso
  | Get_employee_id
  | Retrieve_data
  | Generate_response
  | Sanitize_response

definition process_query ::
  "'c collaborators \<Rightarrow> env \<Rightarrow> string \<Rightarrow> string \<Rightarrow> world \<Rightarrow> 'c reply \<times> world \<times> step list" where
  "process_query co ev query session_id w =
     (case validate_query query of
        (False, error_message) \<Rightarrow>
          (\<lparr>success = False, response = error_message, intent = None, context_data = None,
            requires_auth = False\<rparr>,
           w, [Validate_query])
      | (True, _) \<Rightarrow>
     (case is_authenticated ev session_id w of
        (False, w1) \<Rightarrow>
          (\<lparr>success = False,
            response = ''Please authenticate with your employee ID and name first.'',
            intent = None, context_data = None, requires_auth = True\<rparr>,
           w1, [Validate_query, Check_authentication])
      | (True, w1) \<Rightarrow>
     (let prs = parse query;
          the_intent = p_intent prs
      in case is_ciso ev session_id w1 of (ciso, w2) \<Rightarrow>
     (if is_ciso_query query \<and> \<not> ciso then
          (\<lparr>success = False,
            response = ''You don'' @ [CHR 0x27] @ ''t have permission to access company-wide statistics. CISO access required.'',
            intent = None, context_data = None, requires_auth = False\<rparr>,
           w2, [Validate_query, Check_authentication, Parse_intent, Check_ciso])
      else
     (case get_authenticated_employee_id ev session_id w2 of (employee_id, w3) \<Rightarrow>
     (let ctx = get_context_data co the_intent prs employee_id ciso;
          llm_response = call_llm co query ctx;
          safe_response = sanitize_response llm_response
      in (\<lparr>success = True, response = safe_response, intent = Some (intent_value the_intent),
           context_data = Some ctx, requires_auth = False\<rparr>,
          w3, [Validate_query, Check_authentication, Parse_intent, Check_ciso,
               Get_employee_id, Retrieve_data, Generate_response, Sanitize_response])))))))"

section \<open>Example values\<close>

text \<open>
  Concrete inputs on which the theorems below are instantiated: a record store reader and
  a renderer, a clock, and a session store that holds one session with an employee id and
  no name yet.
\<close>

definition example_collaborators :: "string collaborators" where
  "example_collaborators =
     \<lparr>get_context_data = (\<lambda>i p e c. intent_value i), call_llm = (\<lambda>q c. c)\<rparr>"

definition example_env :: env where
  "example_env = \<lparr>utcnow = (\<lambda>k. 600), session_timeout_minutes = 30\<rparr>"

definition partial_session :: user_session where
  "partial_session =
     \<lparr>s_session_id = ''s1'', s_employee_id = Some 7, s_employee_name = None,
      s_is_ciso = False, s_created_at = 0, s_last_activity = 0\<rparr>"

definition example_world :: world where
  "example_world = \<lparr>sessions = [''s1'' \<mapsto> partial_session], clock_reads = 0\<rparr>"

definition new_employee :: employee where
  "new_employee =
     \<lparr>EMPLOYEE_ID = ''000000042'', EMPLOYEE_NAME = ''Nina'', EMPLOYEE_LAST_NAME = ''Hartman'',
      EMPLOYEE_DIVISION = ''Finance'',
      START_FIRST_VIDEO_DATE = None, FINISH_FIRST_VIDEO_DATE = None,
      START_SECOND_VIDEO_DATE = None, FINISH_SECOND_VIDEO_DATE = None,
      START_THIRD_VIDEO_DATE = None, FINISH_THIRD_VIDEO_DATE = None,
      START_FOURTH_VIDEO_DATE = None, FINISH_FOURTH_VIDEO_DATE = None\<rparr>"

definition half_employee :: employee where
  "half_employee =
     new_employee\<lparr>EMPLOYEE_ID := ''000000043'', EMPLOYEE_NAME := ''Charlie'',
                  EMPLOYEE_LAST_NAME := ''Levi'',
                  START_FIRST_VIDEO_DATE := Some 0, FINISH_FIRST_VIDEO_DATE := Some 600,
                  FINISH_SECOND_VIDEO_DATE := Some 1500\<rparr>"

definition done_employee :: employee where
  "done_employee =
     new_employee\<lparr>EMPLOYEE_ID := ''000000007'', EMPLOYEE_NAME := ''Eli'', EMPLOYEE_LAST_NAME := ''Vardi'',
                  START_FIRST_VIDEO_DATE := Some 0, FINISH_FIRST_VIDEO_DATE := Some 600,
                  START_SECOND_VIDEO_DATE := Some 600, FINISH_SECOND_VIDEO_DATE := Some 1500,
                  START_THIRD_VIDEO_DATE := Some 1500, FINISH_THIRD_VIDEO_DATE := Some 1800,
                  START_FOURTH_VIDEO_DATE := Some 1800, FINISH_FOURTH_VIDEO_DATE := Some 2400\<rparr>"

section \<open>Properties of the matcher and of the text functions\<close>

lemma progress_less: "c' \<in> set (progress c cs) \<Longrightarrow> length (rest c') < length (rest c)"
  by (simp add: progress_def)

lemma iter_greedy_rest_le:
  "m \<in> set (iter_greedy n f c) \<Longrightarrow> length (rest m) \<le> length (rest c)"
proof (induction n arbitrary: c)
  case 0
  then show ?case by simp
next
  case (Suc n)
  from Suc.prems have "m = c \<or> (\<exists>c' \<in> set (progress c (f c)). m \<in> set (iter_greedy n f c'))"
    by auto
  then show ?case
  proof
    assume "m = c"
    then show ?thesis by simp
  next
    assume "\<exists>c' \<in> set (progress c (f c)). m \<in> set (iter_greedy n f c')"
    then obtain c' where c': "c' \<in> set (progress c (f c))" "m \<in> set (iter_greedy n f c')"
      by blast
    from Suc.IH [OF c'(2)] progress_less [OF c'(1)] show ?thesis by simp
  qed
qed

lemma iter_lazy_rest_le:
  "m \<in> set (iter_lazy n f c) \<Longrightarrow> length (rest m) \<le> length (rest c)"
proof (induction n arbitrary: c)
  case 0
  then show ?case by simp
next
  case (Suc n)
  from Suc.prems have "m = c \<or> (\<exists>c' \<in> set (progress c (f c)). m \<in> set (iter_lazy n f c'))"
    by auto
  then show ?case
  proof
    assume "m = c"
    then show ?thesis by simp
  next
    assume "\<exists>c' \<in> set (progress c (f c)). m \<in> set (iter_lazy n f c')"
    then obtain c' where c': "c' \<in> set (progress c (f c))" "m \<in> set (iter_lazy n f c')"
      by blast
    from Suc.IH [OF c'(2)] progress_less [OF c'(1)] show ?thesis by simp
  qed
qed

lemma rmatch_rest_le:
  "m \<in> set (rmatch fl r c) \<Longrightarrow> length (rest m) \<le> length (rest c)"
proof (induction r arbitrary: c m)
  case Eps
  then show ?case by simp
next
  case (Atom a)
  then show ?case by (cases c) (auto simp: rest_def split: list.splits if_splits)
next
  case WordB
  then show ?case by (simp split: if_splits)
next
  case (Seq r s)
  from Seq.prems obtain c' where c': "c' \<in> set (rmatch fl r c)" "m \<in> set (rmatch fl s c')"
    by auto
  from Seq.IH(1) [OF c'(1)] Seq.IH(2) [OF c'(2)] show ?case by simp
next
  case (Alt r s)
  from Alt.prems have "m \<in> set (rmatch fl r c) \<or> m \<in> set (rmatch fl s c)" by simp
  then show ?case using Alt.IH by blast
next
  case (Star r)
  then show ?case using iter_greedy_rest_le by simp
next
  case (LazyStar r)
  then show ?case using iter_lazy_rest_le by simp
next
  case (Grp r)
  from Grp.prems obtain c' where c': "c' \<in> set (rmatch fl r c)" "m = close_group c c'"
    by auto
  from Grp.IH [OF c'(1)] c'(2) show ?case by (simp add: close_group_def rest_def)
qed

lemma rmatch_lit_first:
  "m \<in> set (rmatch fl (Seq (Atom a) r) c) \<Longrightarrow> length (rest m) < length (rest c)"
  by (cases c) (auto simp: rest_def split: list.splits if_splits dest!: rmatch_rest_le)

lemma sub_from_no_match:
  "search_from fl r p s = None \<Longrightarrow> sub_from fl r p s = s"
  by (induction s arbitrary: p) (auto split: list.splits)

lemma sub_from_length_le: "length (sub_from fl r p s) \<le> length s"
proof (induction fl r p s rule: sub_from.induct)
  case (1 fl r p)
  then show ?case by simp
next
  case (2 fl r p x xs)
  then show ?case by (auto split: list.splits simp: le_Suc_eq)
qed

lemma sub_from_length_less:
  assumes cons: "\<And>c m. m \<in> set (rmatch fl r c) \<Longrightarrow> length (rest m) < length (rest c)"
  shows "search_from fl r p s \<noteq> None \<Longrightarrow> length (sub_from fl r p s) < length s"
proof (induction s arbitrary: p)
  case Nil
  then show ?case using cons [of _ "(p, [], None)"] by (auto simp: rest_def split: list.splits)
next
  case (Cons x xs)
  show ?case
  proof (cases "rmatch fl r (p, x # xs, None)")
    case Nil
    then show ?thesis using Cons by simp
  next
    case (Cons m ms)
    then have "length (rest m) < length (x # xs)"
      using cons [of m "(p, x # xs, None)"] by (simp add: rest_def)
    then show ?thesis
      using Cons sub_from_length_le [of fl r "fst m" "rest m"] by simp
  qed
qed

lemma strip_length_le: "length (strip s) \<le> length s"
proof -
  have "length (dropWhile is_space (rev (dropWhile is_space s))) \<le> length (rev (dropWhile is_space s))"
    by (rule length_dropWhile_le)
  also have "\<dots> \<le> length s" using length_dropWhile_le [of is_space s] by simp
  finally show ?thesis by (simp add: strip_def)
qed

lemma dropWhile_id: "xs = [] \<or> \<not> P (hd xs) \<Longrightarrow> dropWhile P xs = xs"
  by (cases xs) auto

lemma last_dropWhile: "dropWhile P xs \<noteq> [] \<Longrightarrow> last (dropWhile P xs) = last xs"
  by (induction xs) auto

lemma strip_idem: "strip (strip s) = strip s"
proof -
  let ?a = "dropWhile is_space s"
  let ?b = "dropWhile is_space (rev ?a)"
  have "rev ?b = [] \<or> \<not> is_space (hd (rev ?b))"
  proof (cases "?b = []")
    case True
    then show ?thesis by simp
  next
    case False
    then have "rev ?a \<noteq> []" by (cases "rev ?a") simp_all
    then have a: "?a \<noteq> []" by simp
    then have ha: "\<not> is_space (hd ?a)" by (rule hd_dropWhile)
    have "last ?b = last (rev ?a)" using False by (rule last_dropWhile)
    also have "\<dots> = hd ?a" using a by (simp add: last_rev)
    finally have "hd (rev ?b) = hd ?a" using False by (simp add: hd_rev)
    with ha show ?thesis by simp
  qed
  then have 1: "dropWhile is_space (rev ?b) = rev ?b" by (rule dropWhile_id)
  show ?thesis unfolding strip_def 1 by simp
qed

lemma rmatch_seq_first:
  assumes "\<And>c m. m \<in> set (rmatch fl r c) \<Longrightarrow> length (rest m) < length (rest c)"
    and "m \<in> set (rmatch fl (Seq r s) c)"
  shows "length (rest m) < length (rest c)"
proof -
  from assms(2) obtain c' where c': "c' \<in> set (rmatch fl r c)" "m \<in> set (rmatch fl s c')"
    by auto
  from assms(1) [OF c'(1)] rmatch_rest_le [OF c'(2)] show ?thesis by simp
qed

lemma re_sub_no_match: "\<not> matches fl r s \<Longrightarrow> re_sub fl r s = s"
  unfolding matches_def re_search_def re_sub_def using sub_from_no_match by blast

lemma re_sub_length_le: "length (re_sub fl r s) \<le> length s"
  by (simp add: re_sub_def sub_from_length_le)

lemma lower_chr_cases:
  "lower_chr x = x \<and> x \<notin> set ''ABCDEFGHIJKLMNOPQRSTUVWXYZ''
   \<or> (x, lower_chr x) \<in> set (zip ''ABCDEFGHIJKLMNOPQRSTUVWXYZ'' ''abcdefghijklmnopqrstuvwxyz'')"
  unfolding lower_chr_def by simp

lemma lower_chr_letters:
  "lower_chr x = x
   \<or> x \<in> set ''ABCDEFGHIJKLMNOPQRSTUVWXYZ'' \<and> lower_chr x \<in> set ''abcdefghijklmnopqrstuvwxyz''"
  using lower_chr_cases [of x] by (auto dest: set_zip_leftD set_zip_rightD)

lemma letters_classes:
  "list_all (\<lambda>c. \<not> is_space c \<and> is_word c \<and> \<not> is_digit c \<and> c \<noteq> CHR 0x0A
                 \<and> lower_chr c = c \<and> upper_chr (lower_chr c) = upper_chr c)
     ''abcdefghijklmnopqrstuvwxyz''"
  "list_all (\<lambda>c. \<not> is_space c \<and> is_word c \<and> \<not> is_digit c \<and> c \<noteq> CHR 0x0A
                 \<and> upper_chr c = c \<and> upper_chr (lower_chr c) = upper_chr c)
     ''ABCDEFGHIJKLMNOPQRSTUVWXYZ''"
  by code_simp+

lemma letter_facts:
  "c \<in> set ''abcdefghijklmnopqrstuvwxyz'' \<Longrightarrow>
     \<not> is_space c \<and> is_word c \<and> \<not> is_digit c \<and> c \<noteq> CHR 0x0A \<and> lower_chr c = c"
  "c \<in> set ''ABCDEFGHIJKLMNOPQRSTUVWXYZ'' \<Longrightarrow>
     \<not> is_space c \<and> is_word c \<and> \<not> is_digit c \<and> c \<noteq> CHR 0x0A \<and> upper_chr c = c
     \<and> upper_chr (lower_chr c) = upper_chr c"
  using letters_classes unfolding list_all_iff by blast+

text \<open>
  Lowering a character changes nothing that the matcher looks at when it ignores case: a
  character that \<open>lower_chr\<close> changes is a capital letter and becomes a small one, and
  both are word characters that are neither whitespace, digits nor the newline.
\<close>

lemma lower_chr_props:
  "lower_chr (lower_chr x) = lower_chr x
   \<and> (lower_chr x = CHR 0x0A \<longleftrightarrow> x = CHR 0x0A)
   \<and> is_space (lower_chr x) = is_space x
   \<and> is_word (lower_chr x) = is_word x
   \<and> is_digit (lower_chr x) = is_digit x
   \<and> upper_chr (lower_chr x) = upper_chr x
   \<and> (x = lower_chr x \<or> x = upper_chr x)"
proof (cases "lower_chr x = x")
  case True
  then show ?thesis by simp
next
  case False
  then have "x \<in> set ''ABCDEFGHIJKLMNOPQRSTUVWXYZ''"
    "lower_chr x \<in> set ''abcdefghijklmnopqrstuvwxyz''"
    using lower_chr_letters [of x] by blast+
  then show ?thesis
    using letter_facts(1) [of "lower_chr x"] letter_facts(2) [of x] by metis
qed

lemma lower_chr_idem: "lower_chr (lower_chr x) = lower_chr x"
  and lower_chr_newline: "lower_chr x = CHR 0x0A \<longleftrightarrow> x = CHR 0x0A"
  and is_space_lower: "is_space (lower_chr x) = is_space x"
  and is_word_lower: "is_word (lower_chr x) = is_word x"
  and is_digit_lower: "is_digit (lower_chr x) = is_digit x"
  and upper_lower: "upper_chr (lower_chr x) = upper_chr x"
  and lower_or_upper: "x = lower_chr x \<or> x = upper_chr x"
  using lower_chr_props [of x] by blast+

lemma atom_match_lower:
  "ignorecase fl \<Longrightarrow> atom_match fl a (lower_chr x) = atom_match fl a x"
proof (cases a)
  case (Range lo hi)
  assume "ignorecase fl"
  then show ?thesis
    using lower_or_upper [of x] unfolding Range
    by (simp add: lower_chr_idem upper_lower) metis
qed (simp_all add: lower_chr_idem lower_chr_newline is_space_lower is_word_lower is_digit_lower)

lemma at_boundary_lower: "at_boundary (lower_cfg c) = at_boundary c"
  by (cases c) (auto simp: at_boundary_def rest_def is_word_lower split: option.splits list.splits)

lemma progress_lower:
  "progress (lower_cfg c) (map lower_cfg cs) = map lower_cfg (progress c cs)"
  by (simp add: progress_def filter_map comp_def rest_def)

lemma iter_greedy_lower:
  assumes "\<And>c. f' (lower_cfg c) = map lower_cfg (f c)"
  shows "iter_greedy n f' (lower_cfg c) = map lower_cfg (iter_greedy n f c)"
proof (induction n arbitrary: c)
  case 0
  then show ?case by simp
next
  case (Suc n)
  have "concat (map (iter_greedy n f') (progress (lower_cfg c) (f' (lower_cfg c))))
      = concat (map (iter_greedy n f') (map lower_cfg (progress c (f c))))"
    by (simp only: assms progress_lower)
  also have "\<dots> = concat (map (\<lambda>c'. map lower_cfg (iter_greedy n f c')) (progress c (f c)))"
    by (simp only: map_map comp_def Suc.IH)
  also have "\<dots> = map lower_cfg (concat (map (iter_greedy n f) (progress c (f c))))"
    by (simp only: map_concat map_map comp_def)
  finally show ?case by simp
qed

lemma iter_lazy_lower:
  assumes "\<And>c. f' (lower_cfg c) = map lower_cfg (f c)"
  shows "iter_lazy n f' (lower_cfg c) = map lower_cfg (iter_lazy n f c)"
proof (induction n arbitrary: c)
  case 0
  then show ?case by simp
next
  case (Suc n)
  have "concat (map (iter_lazy n f') (progress (lower_cfg c) (f' (lower_cfg c))))
      = concat (map (iter_lazy n f') (map lower_cfg (progress c (f c))))"
    by (simp only: assms progress_lower)
  also have "\<dots> = concat (map (\<lambda>c'. map lower_cfg (iter_lazy n f c')) (progress c (f c)))"
    by (simp only: map_map comp_def Suc.IH)
  also have "\<dots> = map lower_cfg (concat (map (iter_lazy n f) (progress c (f c))))"
    by (simp only: map_concat map_map comp_def)
  finally show ?case by simp
qed

lemma rmatch_lower:
  assumes ic: "ignorecase fl"
  shows "rmatch fl r (lower_cfg c) = map lower_cfg (rmatch fl r c)"
proof (induction r arbitrary: c)
  case Eps
  show ?case by simp
next
  case (Atom a)
  show ?case
    by (cases c) (auto simp: rest_def atom_match_lower [OF ic] split: list.splits)
next
  case WordB
  show ?case using at_boundary_lower [of c] by simp
next
  case (Seq r s)
  have "concat (map (rmatch fl s) (rmatch fl r (lower_cfg c)))
      = concat (map (rmatch fl s) (map lower_cfg (rmatch fl r c)))"
    by (simp only: Seq.IH(1))
  also have "\<dots> = concat (map (\<lambda>c'. map lower_cfg (rmatch fl s c')) (rmatch fl r c))"
    by (simp only: map_map comp_def Seq.IH(2))
  also have "\<dots> = map lower_cfg (concat (map (rmatch fl s) (rmatch fl r c)))"
    by (simp only: map_concat map_map comp_def)
  finally show ?case by simp
next
  case (Alt r s)
  show ?case by (simp only: rmatch.simps Alt.IH map_append)
next
  case (Star r)
  have "length (rest (lower_cfg c)) = length (rest c)" by (simp add: rest_def)
  then show ?case
    using iter_greedy_lower [of "rmatch fl r" "rmatch fl r" "length (rest c)" c, OF Star.IH]
    by simp
next
  case (LazyStar r)
  have "length (rest (lower_cfg c)) = length (rest c)" by (simp add: rest_def)
  then show ?case
    using iter_lazy_lower [of "rmatch fl r" "rmatch fl r" "length (rest c)" c, OF LazyStar.IH]
    by simp
next
  case (Grp r)
  have "close_group (lower_cfg c) (lower_cfg c') = lower_cfg (close_group c c')" for c'
    by (simp add: close_group_def rest_def take_map)
  then show ?case by (simp add: Grp.IH comp_def)
qed

lemma search_from_lower:
  assumes "ignorecase fl"
  shows "search_from fl r (map_option lower_chr p) (map lower_chr s)
      = map_option lower_cfg (search_from fl r p s)"
proof (induction s arbitrary: p)
  case Nil
  show ?case
    using rmatch_lower [OF assms, of r "(p, [], None)"]
    by (simp add: rest_def split: list.splits)
next
  case (Cons x xs)
  show ?case
    using rmatch_lower [OF assms, of r "(p, x # xs, None)"] Cons.IH [of "Some x"]
    by (simp add: rest_def split: list.splits)
qed

lemma matches_lower: "ignorecase fl \<Longrightarrow> matches fl r (lower s) = matches fl r s"
  using search_from_lower [of fl r None s]
  by (simp add: matches_def re_search_def lower_def)

section \<open>Properties of the guardrails\<close>

lemma strip_nonempty:
  assumes "c \<in> set s" "\<not> is_space c"
  shows "strip s \<noteq> []"
proof -
  let ?t = "dropWhile is_space s"
  have t: "?t \<noteq> []" using assms by (auto simp: dropWhile_eq_Nil_conv)
  then have "\<not> is_space (hd ?t)" by (rule hd_dropWhile)
  moreover have "hd ?t \<in> set (rev ?t)" using t by simp
  ultimately have "dropWhile is_space (rev ?t) \<noteq> []"
    by (auto simp: dropWhile_eq_Nil_conv simp del: set_rev)
  then show ?thesis by (simp add: strip_def)
qed

lemma lower_chr_letter_not_space:
  "lower_chr c \<in> set ''abcdefghijklmnopqrstuvwxyz'' \<Longrightarrow> \<not> is_space c"
  unfolding is_space_def by (auto simp: lower_chr_def)

lemma forbidden_keywords_start:
  "list_all (\<lambda>k. k \<noteq> [] \<and> hd k \<in> set ''abcdefghijklmnopqrstuvwxyz'') FORBIDDEN_KEYWORDS"
  by (simp add: FORBIDDEN_KEYWORDS_def)

lemma sublist_hd_in: "sublist k s \<Longrightarrow> k \<noteq> [] \<Longrightarrow> hd k \<in> set s"
  by (auto simp: sublist_def neq_Nil_conv)

lemma keyword_not_blank:
  assumes "keyword \<in> set FORBIDDEN_KEYWORDS" "sublist keyword (lower q)"
  shows "q \<noteq> [] \<and> strip q \<noteq> []"
proof -
  from assms(1) forbidden_keywords_start
  have k: "keyword \<noteq> []" "hd keyword \<in> set ''abcdefghijklmnopqrstuvwxyz''"
    by (auto simp: list_all_iff)
  from sublist_hd_in [OF assms(2) k(1)] obtain c where c: "c \<in> set q" "lower_chr c = hd keyword"
    by (auto simp: lower_def)
  with k(2) have "\<not> is_space c" using lower_chr_letter_not_space by metis
  with c(1) show ?thesis using strip_nonempty by auto
qed

lemma check_sql_injection_matches:
  "check_sql_injection q =
     (if list_ex (\<lambda>p. matches IGNORECASE p q) SQL_INJECTION_PATTERNS
      then (False, injection_message) else (True, []))"
proof -
  have "ignorecase IGNORECASE" by (simp add: IGNORECASE_def)
  then have "matches IGNORECASE p (lower q) = matches IGNORECASE p q" for p
    by (rule matches_lower)
  then show ?thesis by (simp add: check_sql_injection_def)
qed

text \<open>
  C2, as the code has it. A query whose lowercase form contains a forbidden keyword is
  always rejected by \<open>validate_query\<close>. The rejection is the forbidden-operations message
  (which contains "forbidden") when the query is at most 1000 characters long and passes
  the SQL-injection check. The two checks that run first decide otherwise: a query of more
  than 1000 characters is rejected as too long, and a query of at most 1000 characters
  that fails the SQL-injection check (that is, one that an injection pattern matches) is
  rejected with the invalid-query-format message.
\<close>

theorem forbidden_keyword_rejected:
  "keyword \<in> set FORBIDDEN_KEYWORDS \<and> sublist keyword (lower q) \<longrightarrow>
     \<not> fst (validate_query q)
     \<and> (length q \<le> 1000 \<and> fst (check_sql_injection q) \<longrightarrow>
          validate_query q = (False, forbidden_message))
     \<and> sublist ''forbidden'' forbidden_message
     \<and> (1000 < length q \<longrightarrow>
          validate_query q = (False, ''Query is too long. Please keep questions concise.''))
     \<and> (length q \<le> 1000 \<and> \<not> fst (check_sql_injection q) \<longrightarrow>
          validate_query q = (False, injection_message))
     \<and> (\<not> fst (check_sql_injection q) \<longleftrightarrow>
          list_ex (\<lambda>p. matches IGNORECASE p q) SQL_INJECTION_PATTERNS)"
proof (intro impI, elim conjE)
  assume k: "keyword \<in> set FORBIDDEN_KEYWORDS" "sublist keyword (lower q)"
  have nb: "q \<noteq> [] \<and> strip q \<noteq> []" using keyword_not_blank [OF k] .
  have fk: "check_forbidden_keywords q = (False, forbidden_message)"
    using k by (auto simp: check_forbidden_keywords_def list_ex_iff)
  have inj: "check_sql_injection q = (True, []) \<or> check_sql_injection q = (False, injection_message)"
    by (simp add: check_sql_injection_def)
  have 1: "\<not> fst (validate_query q)"
    using nb fk inj by (auto simp: validate_query_def)
  have 2: "length q \<le> 1000 \<and> fst (check_sql_injection q) \<longrightarrow>
          validate_query q = (False, forbidden_message)"
    using nb fk inj by (auto simp: validate_query_def)
  have 3: "sublist ''forbidden'' forbidden_message"
    unfolding forbidden_message_def by code_simp
  have 4: "1000 < length q \<longrightarrow>
          validate_query q = (False, ''Query is too long. Please keep questions concise.'')"
    using nb by (simp add: validate_query_def)
  have 5: "length q \<le> 1000 \<and> \<not> fst (check_sql_injection q) \<longrightarrow>
          validate_query q = (False, injection_message)"
    using nb inj by (auto simp: validate_query_def)
  have 6: "\<not> fst (check_sql_injection q) \<longleftrightarrow>
          list_ex (\<lambda>p. matches IGNORECASE p q) SQL_INJECTION_PATTERNS"
    by (simp add: check_sql_injection_matches)
  from 1 2 3 4 5 6 show "\<not> fst (validate_query q)
     \<and> (length q \<le> 1000 \<and> fst (check_sql_injection q) \<longrightarrow>
          validate_query q = (False, forbidden_message))
     \<and> sublist ''forbidden'' forbidden_message
     \<and> (1000 < length q \<longrightarrow>
          validate_query q = (False, ''Query is too long. Please keep questions concise.''))
     \<and> (length q \<le> 1000 \<and> \<not> fst (check_sql_injection q) \<longrightarrow>
          validate_query q = (False, injection_message))
     \<and> (\<not> fst (check_sql_injection q) \<longleftrightarrow>
          list_ex (\<lambda>p. matches IGNORECASE p q) SQL_INJECTION_PATTERNS)" by blast
qed

lemma update_query_facts:
  "''update'' \<in> set FORBIDDEN_KEYWORDS"
  "sublist ''update'' (lower ''Update my training status'')"
  "length ''Update my training status'' \<le> 1000"
  "fst (check_sql_injection ''Update my training status'')"
  by code_simp+

lemma long_query_facts:
  "sublist ''update'' (lower (replicate 1000 CHR ''a'' @ ''update''))"
  "1000 < length (replicate 1000 CHR ''a'' @ ''update'')"
proof -
  have "lower (replicate 1000 CHR ''a'' @ ''update'') = lower (replicate 1000 CHR ''a'') @ ''update'' @ []"
    by (simp add: lower_def lower_chr_def)
  then show "sublist ''update'' (lower (replicate 1000 CHR ''a'' @ ''update''))"
    by (simp only: sublist_appendI)
  show "1000 < length (replicate 1000 CHR ''a'' @ ''update'')" by simp
qed

lemma drop_query_facts:
  "''drop'' \<in> set FORBIDDEN_KEYWORDS"
  "sublist ''drop'' (lower (CHR 0x27 # ''; DROP TABLE employees; --''))"
  "length (CHR 0x27 # ''; DROP TABLE employees; --'') \<le> 1000"
  "\<not> fst (check_sql_injection (CHR 0x27 # ''; DROP TABLE employees; --''))"
  by code_simp+

theorem forbidden_keyword_rejected_witness:
  "''update'' \<in> set FORBIDDEN_KEYWORDS
   \<and> sublist ''update'' (lower ''Update my training status'')
   \<and> length ''Update my training status'' \<le> 1000
   \<and> fst (check_sql_injection ''Update my training status'')
   \<and> validate_query ''Update my training status'' = (False, forbidden_message)
   \<and> sublist ''forbidden'' forbidden_message
   \<and> sublist ''update'' (lower (replicate 1000 CHR ''a'' @ ''update''))
   \<and> 1000 < length (replicate 1000 CHR ''a'' @ ''update'')
   \<and> validate_query (replicate 1000 CHR ''a'' @ ''update'')
       = (False, ''Query is too long. Please keep questions concise.'')
   \<and> ''drop'' \<in> set FORBIDDEN_KEYWORDS
   \<and> sublist ''drop'' (lower (CHR 0x27 # ''; DROP TABLE employees; --''))
   \<and> length (CHR 0x27 # ''; DROP TABLE employees; --'') \<le> 1000
   \<and> \<not> fst (check_sql_injection (CHR 0x27 # ''; DROP TABLE employees; --''))
   \<and> validate_query (CHR 0x27 # ''; DROP TABLE employees; --'') = (False, injection_message)"
  using forbidden_keyword_rejected [of "''update''" "''Update my training status''"]
    forbidden_keyword_rejected [of "''update''" "replicate 1000 CHR ''a'' @ ''update''"]
    forbidden_keyword_rejected [of "''drop''" "CHR 0x27 # ''; DROP TABLE employees; --''"]
    update_query_facts long_query_facts drop_query_facts by blast

text \<open>
  C2 as stated fails: the injection string of the repository's own test contains the
  forbidden keyword "drop", and its rejection message does not contain "forbidden".
\<close>

theorem forbidden_keyword_counterexample:
  "''drop'' \<in> set FORBIDDEN_KEYWORDS
   \<and> sublist ''drop'' (lower (CHR 0x27 # ''; DROP TABLE employees; --''))
   \<and> validate_query (CHR 0x27 # ''; DROP TABLE employees; --'') = (False, injection_message)
   \<and> \<not> sublist ''forbidden'' (lower injection_message)"
  by code_simp

lemma patterns_to_remove_consume:
  assumes "p \<in> set patterns_to_remove" "m \<in> set (rmatch fl p c)"
  shows "length (rest m) < length (rest c)"
proof -
  from assms(1) obtain a r s where p: "p = Seq (Seq (Atom a) r) s"
    by (auto simp: patterns_to_remove_def Seqs_def Str_def)
  show ?thesis
    using assms(2) unfolding p
    by (rule rmatch_seq_first [rotated]) (rule rmatch_lit_first)
qed

lemma re_sub_length_less:
  assumes "p \<in> set patterns_to_remove" "matches fl p s"
  shows "length (re_sub fl p s) < length s"
  unfolding re_sub_def
proof (rule sub_from_length_less)
  show "search_from fl p None s \<noteq> None"
    using assms(2) by (simp add: matches_def re_search_def)
next
  fix c m
  assume "m \<in> set (rmatch fl p c)"
  with assms(1) show "length (rest m) < length (rest c)" by (rule patterns_to_remove_consume)
qed

lemma sanitize_response_unfold:
  "sanitize_response y =
     strip (re_sub IGNORECASE_DOTALL (patterns_to_remove ! 2)
             (re_sub IGNORECASE_DOTALL (patterns_to_remove ! 1)
               (re_sub IGNORECASE_DOTALL (patterns_to_remove ! 0) y)))"
  by (simp add: sanitize_response_def patterns_to_remove_def)

lemma patterns_to_remove_nth:
  "patterns_to_remove ! 0 \<in> set patterns_to_remove"
  "patterns_to_remove ! 1 \<in> set patterns_to_remove"
  "patterns_to_remove ! 2 \<in> set patterns_to_remove"
  "list_all P patterns_to_remove \<longleftrightarrow>
     P (patterns_to_remove ! 0) \<and> P (patterns_to_remove ! 1) \<and> P (patterns_to_remove ! 2)"
  by (simp_all add: patterns_to_remove_def)

lemma sanitize_response_stripped: "strip (sanitize_response x) = sanitize_response x"
  by (simp add: sanitize_response_def strip_idem)

text \<open>
  C3: a non-blank query of at most 1000 characters that matches one of the SQL-injection
  patterns (case-insensitively, as the code searches them) fails the SQL-injection check
  and is rejected by \<open>validate_query\<close> with the invalid-query-format message, which
  contains "invalid query format" once lowered; the check comes before the
  forbidden-keyword check, so the forbidden-operations message is never the answer for
  such a query.
\<close>

theorem sql_injection_rejected_first:
  "strip q \<noteq> [] \<and> length q \<le> 1000
   \<and> list_ex (\<lambda>p. matches IGNORECASE p q) SQL_INJECTION_PATTERNS \<longrightarrow>
     \<not> fst (check_sql_injection q)
     \<and> validate_query q = (False, injection_message)
     \<and> sublist ''invalid query format'' (lower injection_message)
     \<and> validate_query q \<noteq> (False, forbidden_message)"
proof
  assume a: "strip q \<noteq> [] \<and> length q \<le> 1000
   \<and> list_ex (\<lambda>p. matches IGNORECASE p q) SQL_INJECTION_PATTERNS"
  then have nb: "q \<noteq> []" by (auto simp: strip_def)
  from a have c: "check_sql_injection q = (False, injection_message)"
    by (simp add: check_sql_injection_matches)
  then have v: "validate_query q = (False, injection_message)"
    using a nb by (simp add: validate_query_def)
  have s: "sublist ''invalid query format'' (lower injection_message)"
    by code_simp
  have d: "injection_message \<noteq> forbidden_message"
    by (simp add: injection_message_def forbidden_message_def)
  from c v s d show "\<not> fst (check_sql_injection q)
     \<and> validate_query q = (False, injection_message)
     \<and> sublist ''invalid query format'' (lower injection_message)
     \<and> validate_query q \<noteq> (False, forbidden_message)" by simp
qed

lemma drop_table_facts:
  "strip (CHR 0x27 # ''; DROP TABLE employees; --'') \<noteq> []"
  "length (CHR 0x27 # ''; DROP TABLE employees; --'') \<le> 1000"
  "list_ex (\<lambda>p. matches IGNORECASE p (CHR 0x27 # ''; DROP TABLE employees; --''))
     SQL_INJECTION_PATTERNS"
  "check_forbidden_keywords (CHR 0x27 # ''; DROP TABLE employees; --'') = (False, forbidden_message)"
  by code_simp+

theorem sql_injection_rejected_first_witness:
  "strip (CHR 0x27 # ''; DROP TABLE employees; --'') \<noteq> []
   \<and> length (CHR 0x27 # ''; DROP TABLE employees; --'') \<le> 1000
   \<and> list_ex (\<lambda>p. matches IGNORECASE p (CHR 0x27 # ''; DROP TABLE employees; --''))
        SQL_INJECTION_PATTERNS
   \<and> check_forbidden_keywords (CHR 0x27 # ''; DROP TABLE employees; --'')
        = (False, forbidden_message)
   \<and> validate_query (CHR 0x27 # ''; DROP TABLE employees; --'') = (False, injection_message)
   \<and> sublist ''invalid query format'' (lower injection_message)"
  using sql_injection_rejected_first [of "CHR 0x27 # ''; DROP TABLE employees; --''"]
    drop_table_facts by blast

text \<open>
  C4, as the code has it. \<open>sanitize_response\<close> removes the blocks in one pass per pattern,
  so a removal can bring the two halves of a new block together. It is idempotent exactly
  on the responses whose sanitized text holds no removable block:
  \<open>sanitize_response(sanitize_response(x)) = sanitize_response(x)\<close> if and only if none
  of the three patterns matches \<open>sanitize_response(x)\<close>.
\<close>

theorem sanitize_response_idempotent_iff:
  "sanitize_response (sanitize_response x) = sanitize_response x \<longleftrightarrow>
     list_all (\<lambda>p. \<not> matches IGNORECASE_DOTALL p (sanitize_response x)) patterns_to_remove"
proof -
  let ?fl = IGNORECASE_DOTALL
  let ?y = "sanitize_response x"
  let ?p0 = "patterns_to_remove ! 0" and ?p1 = "patterns_to_remove ! 1"
    and ?p2 = "patterns_to_remove ! 2"
  let ?y1 = "re_sub ?fl ?p0 ?y"
  let ?y2 = "re_sub ?fl ?p1 ?y1"
  let ?y3 = "re_sub ?fl ?p2 ?y2"
  have u: "sanitize_response ?y = strip ?y3" by (rule sanitize_response_unfold)
  have le: "length (strip ?y3) \<le> length ?y3" "length ?y3 \<le> length ?y2"
    "length ?y2 \<le> length ?y1" "length ?y1 \<le> length ?y"
    by (rule strip_length_le re_sub_length_le)+
  show ?thesis
  proof
    assume idem: "sanitize_response ?y = ?y"
    have "\<not> matches ?fl ?p0 ?y"
    proof
      assume "matches ?fl ?p0 ?y"
      then have "length ?y1 < length ?y"
        using patterns_to_remove_nth(1) by (intro re_sub_length_less)
      with le have "length (strip ?y3) < length ?y" by linarith
      with idem u show False by simp
    qed
    then have y1: "?y1 = ?y" by (rule re_sub_no_match)
    have "\<not> matches ?fl ?p1 ?y"
    proof
      assume "matches ?fl ?p1 ?y"
      then have "length (re_sub ?fl ?p1 ?y) < length ?y"
        using patterns_to_remove_nth(2) by (intro re_sub_length_less)
      with le y1 have "length (strip ?y3) < length ?y" by simp
      with idem u show False by simp
    qed
    then have y2: "?y2 = ?y" using y1 by (simp add: re_sub_no_match)
    have "\<not> matches ?fl ?p2 ?y"
    proof
      assume "matches ?fl ?p2 ?y"
      then have "length (re_sub ?fl ?p2 ?y) < length ?y"
        using patterns_to_remove_nth(3) by (intro re_sub_length_less)
      with le y2 have "length (strip ?y3) < length ?y" by simp
      with idem u show False by simp
    qed
    with \<open>\<not> matches ?fl ?p0 ?y\<close> \<open>\<not> matches ?fl ?p1 ?y\<close>
    show "list_all (\<lambda>p. \<not> matches ?fl p ?y) patterns_to_remove"
      by (simp add: patterns_to_remove_nth(4))
  next
    assume "list_all (\<lambda>p. \<not> matches ?fl p ?y) patterns_to_remove"
    then have n: "\<not> matches ?fl ?p0 ?y" "\<not> matches ?fl ?p1 ?y" "\<not> matches ?fl ?p2 ?y"
      by (simp_all add: patterns_to_remove_nth(4))
    have "?y3 = ?y" using n by (simp add: re_sub_no_match)
    then show "sanitize_response ?y = ?y"
      using u sanitize_response_stripped [of x] by simp
  qed
qed

lemma sql_block_sanitized:
  "sanitize_response ''Here is your data: ```sql SELECT * FROM employees```'' = ''Here is your data:''"
  "list_all (\<lambda>p. \<not> matches IGNORECASE_DOTALL p ''Here is your data:'') patterns_to_remove"
  by code_simp+

theorem sanitize_response_idempotent_iff_witness:
  "sanitize_response ''Here is your data: ```sql SELECT * FROM employees```'' = ''Here is your data:''
   \<and> list_all (\<lambda>p. \<not> matches IGNORECASE_DOTALL p ''Here is your data:'') patterns_to_remove
   \<and> sanitize_response (sanitize_response ''Here is your data: ```sql SELECT * FROM employees```'')
       = sanitize_response ''Here is your data: ```sql SELECT * FROM employees```''"
  using sanitize_response_idempotent_iff [of "''Here is your data: ```sql SELECT * FROM employees```''"]
    sql_block_sanitized by simp

text \<open>
  C4 as stated fails: cutting the inner block out of this response leaves an empty
  \<open><system></system>\<close> block, which a second call removes.
\<close>

theorem sanitize_response_counterexample:
  "sanitize_response ''<sys<system></system>tem></system>'' = ''<system></system>''
   \<and> sanitize_response (sanitize_response ''<sys<system></system>tem></system>'') = []"
  by code_simp

section \<open>Properties of the intent parser\<close>

text \<open>
  C5: \<open>classify_intent\<close> on the three queries of the tests, and the video number of the
  third. The first two are classified as the claim says, and the video number is 3; the
  third query is classified CHECK_COMPLETION, not VIDEO_DURATION, because the first
  pattern of CHECK_COMPLETION finds "did" followed by "video".
\<close>

theorem classify_intent_examples:
  "classify_intent ''Did I complete my training?'' = CHECK_COMPLETION
   \<and> classify_intent ''Which videos am I missing?'' = LIST_MISSING_VIDEOS
   \<and> classify_intent ''How long did video 3 take me?'' = CHECK_COMPLETION
   \<and> extract_video_number ''How long did video 3 take me?'' = Some 3"
  by code_simp

lemma sublist_trans': "sublist a b \<Longrightarrow> sublist b c \<Longrightarrow> sublist a c"
  using sublist_order.order.trans by blast

lemma started_in:
  "sublist ''started'' ''not started''"
  "sublist ''started'' (''haven'' @ [CHR 0x27] @ ''t started'')"
  by code_simp+

text \<open>
  C6, as the code has it. \<open>extract_status\<close> checks NOT_STARTED first, then IN_PROGRESS,
  then FINISHED. It returns NOT_STARTED exactly when the lowercase text contains
  "not started" or "haven't started"; IN_PROGRESS exactly when it contains neither but
  contains "in progress", "ongoing" or "started"; FINISHED exactly when it contains
  "finished", "completed" or "done" and none of "started", "in progress" and "ongoing";
  and null exactly when it contains none of the six cues "started", "in progress",
  "ongoing", "finished", "completed" and "done". It returns nothing else.
  \<open>extract_status("Show employees who have finished")\<close> is FINISHED.
\<close>

theorem extract_status_priority:
  "(extract_status q = Some ''NOT_STARTED'' \<longleftrightarrow>
      sublist ''not started'' (lower q)
      \<or> sublist (''haven'' @ [CHR 0x27] @ ''t started'') (lower q))
   \<and> (extract_status q = Some ''IN_PROGRESS'' \<longleftrightarrow>
      \<not> (sublist ''not started'' (lower q)
          \<or> sublist (''haven'' @ [CHR 0x27] @ ''t started'') (lower q))
      \<and> (sublist ''in progress'' (lower q) \<or> sublist ''ongoing'' (lower q)
          \<or> sublist ''started'' (lower q)))
   \<and> (extract_status q = Some ''FINISHED'' \<longleftrightarrow>
      (sublist ''finished'' (lower q) \<or> sublist ''completed'' (lower q)
       \<or> sublist ''done'' (lower q))
      \<and> \<not> sublist ''started'' (lower q) \<and> \<not> sublist ''in progress'' (lower q)
      \<and> \<not> sublist ''ongoing'' (lower q))
   \<and> extract_status ''Show employees who have finished'' = Some ''FINISHED''
   \<and> (extract_status q = None \<longleftrightarrow>
      \<not> sublist ''started'' (lower q) \<and> \<not> sublist ''in progress'' (lower q)
      \<and> \<not> sublist ''ongoing'' (lower q) \<and> \<not> sublist ''finished'' (lower q)
      \<and> \<not> sublist ''completed'' (lower q) \<and> \<not> sublist ''done'' (lower q))
   \<and> (extract_status q = None \<or> extract_status q = Some ''NOT_STARTED''
      \<or> extract_status q = Some ''IN_PROGRESS'' \<or> extract_status q = Some ''FINISHED'')"
proof -
  have ns: "sublist ''not started'' (lower q)
      \<or> sublist (''haven'' @ [CHR 0x27] @ ''t started'') (lower q) \<Longrightarrow> sublist ''started'' (lower q)"
    using started_in sublist_trans' by blast
  have ex: "extract_status ''Show employees who have finished'' = Some ''FINISHED''"
    by code_simp
  show ?thesis
    using ns ex unfolding extract_status_def Let_def by auto
qed

lemma finished_query_facts:
  "sublist ''finished'' (lower ''Show employees who have finished'')"
  "\<not> sublist ''started'' (lower ''Show employees who have finished'')"
  "\<not> sublist ''in progress'' (lower ''Show employees who have finished'')"
  "\<not> sublist ''ongoing'' (lower ''Show employees who have finished'')"
  by code_simp+

lemma no_status_facts:
  "\<not> sublist ''started'' (lower ''What is my training status?'')"
  "\<not> sublist ''in progress'' (lower ''What is my training status?'')"
  "\<not> sublist ''ongoing'' (lower ''What is my training status?'')"
  "\<not> sublist ''finished'' (lower ''What is my training status?'')"
  "\<not> sublist ''completed'' (lower ''What is my training status?'')"
  "\<not> sublist ''done'' (lower ''What is my training status?'')"
  by code_simp+

theorem extract_status_priority_witness:
  "sublist ''finished'' (lower ''Show employees who have finished'')
   \<and> \<not> sublist ''started'' (lower ''Show employees who have finished'')
   \<and> \<not> sublist ''in progress'' (lower ''Show employees who have finished'')
   \<and> \<not> sublist ''ongoing'' (lower ''Show employees who have finished'')
   \<and> extract_status ''Show employees who have finished'' = Some ''FINISHED''
   \<and> extract_status ''What is my training status?'' = None"
  using extract_status_priority [of "''Show employees who have finished''"]
    extract_status_priority [of "''What is my training status?''"]
    finished_query_facts no_status_facts
  by blast

text \<open>
  C6 as stated fails: a text that contains "finished" and also "started" is IN_PROGRESS.
\<close>

theorem extract_status_counterexample:
  "sublist ''finished'' (lower ''finished what was started'')
   \<and> extract_status ''finished what was started'' = Some ''IN_PROGRESS''"
  by code_simp

lemma video_number_loop_Some:
  "video_number_loop ps s = Some n \<Longrightarrow>
     1 \<le> n \<and> n \<le> 5 \<and>
     (\<exists>p m. p \<in> set ps \<and> re_search no_flags p s = Some m \<and> int_of_digits (group1 m) = n)"
  by (induction ps) (auto simp: Let_def split: option.splits if_splits)

lemma video_number_loop_None:
  "video_number_loop ps s = None \<longleftrightarrow>
     list_all (\<lambda>p. case re_search no_flags p s of
                      None \<Rightarrow> True
                    | Some m \<Rightarrow> \<not> (1 \<le> int_of_digits (group1 m) \<and> int_of_digits (group1 m) \<le> 5)) ps"
  by (induction ps) (auto simp: Let_def split: option.splits if_splits)

text \<open>
  The loop returns the number of the first shape, in the order of the list, whose
  leftmost occurrence carries a number from 1 to 5.
\<close>

lemma video_number_loop_first:
  "video_number_loop ps s = Some n \<longleftrightarrow>
     (\<exists>before p after m.
        ps = before @ p # after
        \<and> list_all (\<lambda>p'. case re_search no_flags p' s of
                             None \<Rightarrow> True
                           | Some m' \<Rightarrow> \<not> (1 \<le> int_of_digits (group1 m')
                                          \<and> int_of_digits (group1 m') \<le> 5)) before
        \<and> re_search no_flags p s = Some m \<and> int_of_digits (group1 m) = n
        \<and> 1 \<le> n \<and> n \<le> 5)"
  (is "?L ps \<longleftrightarrow> ?R ps")
proof (induction ps)
  case Nil
  then show ?case by simp
next
  case (Cons p0 ps)
  let ?miss = "\<lambda>p'. case re_search no_flags p' s of
                             None \<Rightarrow> True
                           | Some m' \<Rightarrow> \<not> (1 \<le> int_of_digits (group1 m')
                                          \<and> int_of_digits (group1 m') \<le> 5)"
  show ?case
  proof (cases "?miss p0")
    case True
    then have l: "video_number_loop (p0 # ps) s = video_number_loop ps s"
      by (auto simp: Let_def split: option.splits)
    have "?R (p0 # ps) \<longleftrightarrow> ?R ps"
    proof
      assume "?R (p0 # ps)"
      then obtain before p after m where r: "p0 # ps = before @ p # after" "list_all ?miss before"
        "re_search no_flags p s = Some m" "int_of_digits (group1 m) = n" "1 \<le> n" "n \<le> 5"
        by blast
      have "before \<noteq> []"
      proof
        assume "before = []"
        with r(1) have "p = p0" by simp
        with True r(3,4,5,6) show False by simp
      qed
      then obtain b' where b': "before = p0 # b'" using r(1) by (cases before) auto
      with r(1) have "ps = b' @ p # after" by simp
      moreover from b' r(2) have "list_all ?miss b'" by simp
      ultimately show "?R ps" using r(3,4,5,6) by blast
    next
      assume "?R ps"
      then obtain before p after m where r: "ps = before @ p # after" "list_all ?miss before"
        "re_search no_flags p s = Some m" "int_of_digits (group1 m) = n" "1 \<le> n" "n \<le> 5"
        by blast
      from r(1) have "p0 # ps = (p0 # before) @ p # after" by simp
      moreover from True r(2) have "list_all ?miss (p0 # before)" by simp
      ultimately show "?R (p0 # ps)" using r(3,4,5,6) by blast
    qed
    with l Cons.IH show ?thesis by simp
  next
    case False
    then obtain m0 where m0: "re_search no_flags p0 s = Some m0"
      "1 \<le> int_of_digits (group1 m0)" "int_of_digits (group1 m0) \<le> 5"
      by (auto split: option.splits)
    then have l: "video_number_loop (p0 # ps) s = Some (int_of_digits (group1 m0))"
      by (simp add: Let_def)
    have "?R (p0 # ps) \<longleftrightarrow> n = int_of_digits (group1 m0)"
    proof
      assume "?R (p0 # ps)"
      then obtain before p after m where r: "p0 # ps = before @ p # after" "list_all ?miss before"
        "re_search no_flags p s = Some m" "int_of_digits (group1 m) = n" "1 \<le> n" "n \<le> 5"
        by blast
      have "before = []"
      proof (rule ccontr)
        assume "before \<noteq> []"
        then obtain b' where "before = p0 # b'" using r(1) by (cases before) auto
        with r(2) have "?miss p0" by simp
        with False show False by simp
      qed
      with r(1) have "p = p0" by simp
      with r(3,4) m0(1) show "n = int_of_digits (group1 m0)" by simp
    next
      assume n: "n = int_of_digits (group1 m0)"
      have "p0 # ps = [] @ p0 # ps" by simp
      moreover have "list_all ?miss []" by simp
      ultimately show "?R (p0 # ps)" using m0 n by blast
    qed
    with l show ?thesis by auto
  qed
qed

text \<open>
  C7, as the code has it. \<open>extract_video_number\<close> accepts the numbers 1 to 5. It tries the
  five shapes in their order on the lowercase text and takes each shape's leftmost
  occurrence: the result is N exactly when some shape has a leftmost occurrence with the
  number N, 1 \<le> N \<le> 5, and every shape before it in the list has no occurrence or one
  whose number is out of range; the result is null exactly when no shape has a leftmost
  occurrence with a number in 1..5. "video 5" yields 5, "video 6" yields null,
  "video 9 module 2" yields 2 and "module 2 video 3" yields 3.
\<close>

theorem extract_video_number_range:
  "(extract_video_number q = Some n \<longrightarrow>
      1 \<le> n \<and> n \<le> 5 \<and>
      (\<exists>p m. p \<in> set video_number_patterns \<and> re_search no_flags p (lower q) = Some m
             \<and> int_of_digits (group1 m) = n))
   \<and> (extract_video_number q = None \<longleftrightarrow>
        list_all (\<lambda>p. case re_search no_flags p (lower q) of
                         None \<Rightarrow> True
                       | Some m \<Rightarrow> \<not> (1 \<le> int_of_digits (group1 m)
                                     \<and> int_of_digits (group1 m) \<le> 5))
                 video_number_patterns)
   \<and> extract_video_number ''video 5'' = Some 5
   \<and> extract_video_number ''video 6'' = None
   \<and> extract_video_number ''video 9 module 2'' = Some 2
   \<and> (extract_video_number q = Some n \<longleftrightarrow>
        (\<exists>before p after m.
           video_number_patterns = before @ p # after
           \<and> list_all (\<lambda>p'. case re_search no_flags p' (lower q) of
                                None \<Rightarrow> True
                              | Some m' \<Rightarrow> \<not> (1 \<le> int_of_digits (group1 m')
                                             \<and> int_of_digits (group1 m') \<le> 5)) before
           \<and> re_search no_flags p (lower q) = Some m \<and> int_of_digits (group1 m) = n
           \<and> 1 \<le> n \<and> n \<le> 5))
   \<and> extract_video_number ''module 2 video 3'' = Some 3"
proof -
  have ex: "extract_video_number ''video 5'' = Some 5"
    "extract_video_number ''video 6'' = None"
    "extract_video_number ''video 9 module 2'' = Some 2"
    "extract_video_number ''module 2 video 3'' = Some 3"
    by code_simp+
  show ?thesis
    unfolding extract_video_number_def [of q]
    using video_number_loop_Some [of video_number_patterns "lower q" n]
      video_number_loop_None [of video_number_patterns "lower q"]
      video_number_loop_first [of video_number_patterns "lower q" n] ex
    by blast
qed

lemma video_3_number: "extract_video_number ''Show me video 3 details'' = Some 3"
  by code_simp

theorem extract_video_number_range_witness:
  "extract_video_number ''Show me video 3 details'' = Some 3
   \<and> (1::int) \<le> 3 \<and> (3::int) \<le> 5
   \<and> (\<exists>p m. p \<in> set video_number_patterns
          \<and> re_search no_flags p (lower ''Show me video 3 details'') = Some m
          \<and> int_of_digits (group1 m) = 3)
   \<and> extract_video_number ''module 2 video 3'' = Some 3"
  using extract_video_number_range [of "''Show me video 3 details''" 3] video_3_number
  by blast

text \<open>C7 as stated fails: the number 5 is accepted.\<close>

theorem extract_video_number_counterexample:
  "extract_video_number ''video 5'' = Some 5"
  by code_simp

lemma cue_in:
  "sublist ''i'' ''his''" "sublist ''i'' ''their''" "sublist ''my'' ''myself''"
  by code_simp+

text \<open>
  C10, as the code has it. \<open>extract_employee_mention\<close> matches its cue words as raw
  substrings: a query whose lowercase form contains "i", "my" or "me" anywhere yields
  "self"; "other" is returned exactly when the lowercase form contains "her" or "employee"
  and none of "i", "my" and "me" (the cues "his" and "their" contain "i", and "myself"
  contains "my"); every other query yields "self".
\<close>

theorem extract_employee_mention_substrings:
  "(sublist ''i'' (lower q) \<or> sublist ''my'' (lower q) \<or> sublist ''me'' (lower q) \<longrightarrow>
      extract_employee_mention q = ''self'')
   \<and> (extract_employee_mention q = ''other'' \<longleftrightarrow>
        (sublist ''her'' (lower q) \<or> sublist ''employee'' (lower q))
        \<and> \<not> sublist ''i'' (lower q) \<and> \<not> sublist ''my'' (lower q) \<and> \<not> sublist ''me'' (lower q))
   \<and> (extract_employee_mention q = ''self'' \<or> extract_employee_mention q = ''other'')"
proof -
  have a: "sublist ''his'' (lower q) \<Longrightarrow> sublist ''i'' (lower q)"
    "sublist ''their'' (lower q) \<Longrightarrow> sublist ''i'' (lower q)"
    "sublist ''myself'' (lower q) \<Longrightarrow> sublist ''my'' (lower q)"
    using cue_in sublist_trans' by blast+
  show ?thesis
    using a unfolding extract_employee_mention_def Let_def by auto
qed

lemma his_query_facts: "sublist ''i'' (lower ''What about his status'')"
  by code_simp

theorem extract_employee_mention_substrings_witness:
  "sublist ''i'' (lower ''What about his status'')
   \<and> extract_employee_mention ''What about his status'' = ''self''"
  using extract_employee_mention_substrings [of "''What about his status''"] his_query_facts
  by blast

text \<open>
  C10 as stated fails on its example "employee": the word contains none of "i", "my" and
  "me", and a query that consists of it yields "other".
\<close>

theorem extract_employee_mention_counterexample:
  "\<not> sublist ''i'' (lower ''employee'') \<and> \<not> sublist ''my'' (lower ''employee'')
   \<and> \<not> sublist ''me'' (lower ''employee'')
   \<and> extract_employee_mention ''employee'' = ''other''"
  by code_simp

section \<open>Properties of the employee records and the training service\<close>

lemma completed_each:
  "get_video_completed e 1 = (FINISH_FIRST_VIDEO_DATE e \<noteq> None)"
  "get_video_completed e 2 = (FINISH_SECOND_VIDEO_DATE e \<noteq> None)"
  "get_video_completed e 3 = (FINISH_THIRD_VIDEO_DATE e \<noteq> None)"
  "get_video_completed e 4 = (FINISH_FOURTH_VIDEO_DATE e \<noteq> None)"
  by (simp_all add: get_video_completed_def)

lemma completed_count_le: "length (get_completed_videos e) \<le> 4"
  unfolding get_completed_videos_def video_range_def
  using length_filter_le [of "get_video_completed e" "[1, 2, 3, 4]"] by simp

lemma round_half_even_int: "round_half_even (of_int j) = j"
  by (simp add: round_half_even_def)

lemma py_round2_int: "py_round2 (of_int k) = of_int k"
proof -
  have "(of_int k :: rat) * 100 = of_int (k * 100)" by simp
  then have "py_round2 (of_int k) = of_int (round_half_even (of_int (k * 100))) / 100"
    by (simp only: py_round2_def)
  also have "\<dots> = of_int (k * 100) / 100" by (simp only: round_half_even_int)
  also have "\<dots> = of_int k" by simp
  finally show ?thesis .
qed

lemma percentage_exact: "completion_percentage e = of_nat (length (get_completed_videos e)) * 25"
proof -
  have "(of_nat (length (get_completed_videos e)) / 4) * 100 = (of_int (int (length (get_completed_videos e)) * 25) :: rat)"
    by simp
  then have "py_round2 ((of_nat (length (get_completed_videos e)) / 4) * 100)
      = of_int (int (length (get_completed_videos e)) * 25)"
    by (simp only: py_round2_int)
  then show ?thesis
    unfolding completion_percentage_def Let_def by simp
qed

text \<open>
  C8: a video counts as completed iff its finish timestamp is set, whatever its start
  timestamp is; the number of completed videos is the number of finish timestamps that are
  set; the status is NOT_STARTED for 0, IN_PROGRESS for 1 to 3 and FINISHED for 4
  completed videos; the completion percentage is completed/4 * 100 rounded to two
  decimals, which is 25 times the number of completed videos; and a record with finish
  timestamps on videos 1 and 2 only has status IN_PROGRESS, percentage 50, completed list
  [1, 2] and missing list [3, 4].
\<close>

theorem training_status_derivation:
  "get_video_completed e 1 = (FINISH_FIRST_VIDEO_DATE e \<noteq> None)
   \<and> get_video_completed e 2 = (FINISH_SECOND_VIDEO_DATE e \<noteq> None)
   \<and> get_video_completed e 3 = (FINISH_THIRD_VIDEO_DATE e \<noteq> None)
   \<and> get_video_completed e 4 = (FINISH_FOURTH_VIDEO_DATE e \<noteq> None)
   \<and> length (get_completed_videos e)
       = length (filter (\<lambda>d. d \<noteq> None)
           [FINISH_FIRST_VIDEO_DATE e, FINISH_SECOND_VIDEO_DATE e,
            FINISH_THIRD_VIDEO_DATE e, FINISH_FOURTH_VIDEO_DATE e])
   \<and> (get_training_status e = ''NOT_STARTED'' \<longleftrightarrow> length (get_completed_videos e) = 0)
   \<and> (get_training_status e = ''IN_PROGRESS'' \<longleftrightarrow>
        1 \<le> length (get_completed_videos e) \<and> length (get_completed_videos e) \<le> 3)
   \<and> (get_training_status e = ''FINISHED'' \<longleftrightarrow> length (get_completed_videos e) = 4)
   \<and> completion_percentage e = py_round2 (of_nat (length (get_completed_videos e)) / 4 * 100)
   \<and> completion_percentage e = of_nat (length (get_completed_videos e)) * 25
   \<and> (FINISH_FIRST_VIDEO_DATE e \<noteq> None \<and> FINISH_SECOND_VIDEO_DATE e \<noteq> None
        \<and> FINISH_THIRD_VIDEO_DATE e = None \<and> FINISH_FOURTH_VIDEO_DATE e = None \<longrightarrow>
        get_training_status e = ''IN_PROGRESS'' \<and> completion_percentage e = 50
        \<and> get_completed_videos e = [1, 2] \<and> get_missing_videos e = [3, 4])"
proof -
  have len: "length (get_completed_videos e)
       = length (filter (\<lambda>d. d \<noteq> None)
           [FINISH_FIRST_VIDEO_DATE e, FINISH_SECOND_VIDEO_DATE e,
            FINISH_THIRD_VIDEO_DATE e, FINISH_FOURTH_VIDEO_DATE e])"
    by (simp add: get_completed_videos_def video_range_def completed_each)
  have st: "(get_training_status e = ''NOT_STARTED'' \<longleftrightarrow> length (get_completed_videos e) = 0)
   \<and> (get_training_status e = ''IN_PROGRESS'' \<longleftrightarrow>
        1 \<le> length (get_completed_videos e) \<and> length (get_completed_videos e) \<le> 3)
   \<and> (get_training_status e = ''FINISHED'' \<longleftrightarrow> length (get_completed_videos e) = 4)"
    using completed_count_le [of e]
    by (cases "get_completed_videos e") (auto simp: get_training_status_def Let_def)
  have pct: "completion_percentage e = py_round2 (of_nat (length (get_completed_videos e)) / 4 * 100)"
    by (simp add: completion_percentage_def)
  have ex: "FINISH_FIRST_VIDEO_DATE e \<noteq> None \<and> FINISH_SECOND_VIDEO_DATE e \<noteq> None
        \<and> FINISH_THIRD_VIDEO_DATE e = None \<and> FINISH_FOURTH_VIDEO_DATE e = None \<longrightarrow>
        get_training_status e = ''IN_PROGRESS'' \<and> completion_percentage e = 50
        \<and> get_completed_videos e = [1, 2] \<and> get_missing_videos e = [3, 4]"
  proof
    assume a: "FINISH_FIRST_VIDEO_DATE e \<noteq> None \<and> FINISH_SECOND_VIDEO_DATE e \<noteq> None
        \<and> FINISH_THIRD_VIDEO_DATE e = None \<and> FINISH_FOURTH_VIDEO_DATE e = None"
    then have c: "get_completed_videos e = [1, 2]" and m: "get_missing_videos e = [3, 4]"
      by (simp_all add: get_completed_videos_def get_missing_videos_def video_range_def completed_each)
    from c have "get_training_status e = ''IN_PROGRESS''"
      by (simp add: get_training_status_def)
    moreover from c have "completion_percentage e = 50"
      by (simp add: percentage_exact)
    ultimately show "get_training_status e = ''IN_PROGRESS'' \<and> completion_percentage e = 50
        \<and> get_completed_videos e = [1, 2] \<and> get_missing_videos e = [3, 4]"
      using c m by simp
  qed
  from completed_each [of e] len st pct percentage_exact [of e] ex show ?thesis by blast
qed

theorem training_status_derivation_witness:
  "FINISH_FIRST_VIDEO_DATE half_employee \<noteq> None \<and> FINISH_SECOND_VIDEO_DATE half_employee \<noteq> None
   \<and> FINISH_THIRD_VIDEO_DATE half_employee = None \<and> FINISH_FOURTH_VIDEO_DATE half_employee = None
   \<and> START_SECOND_VIDEO_DATE half_employee = None
   \<and> get_video_completed half_employee 2
   \<and> get_training_status half_employee = ''IN_PROGRESS''
   \<and> completion_percentage half_employee = 50
   \<and> get_completed_videos half_employee = [1, 2]
   \<and> get_missing_videos half_employee = [3, 4]"
proof -
  have h: "FINISH_FIRST_VIDEO_DATE half_employee \<noteq> None \<and> FINISH_SECOND_VIDEO_DATE half_employee \<noteq> None
   \<and> FINISH_THIRD_VIDEO_DATE half_employee = None \<and> FINISH_FOURTH_VIDEO_DATE half_employee = None"
    and s: "START_SECOND_VIDEO_DATE half_employee = None"
    by (simp_all add: half_employee_def new_employee_def)
  from training_status_derivation [of half_employee] h s show ?thesis by blast
qed

lemma py_max_by_total: "xs \<noteq> [] \<Longrightarrow> \<exists>y. py_max_by key xs = Inr y"
  by (cases xs) simp_all

lemma py_min_by_total: "xs \<noteq> [] \<Longrightarrow> \<exists>y. py_min_by key xs = Inr y"
  by (cases xs) simp_all

lemma py_div_total: "n \<noteq> 0 \<Longrightarrow> py_div a n = Inr (a / of_nat n)"
  by (simp add: py_div_def)

lemma global_summary_finished:
  assumes "filter (\<lambda>e. get_training_status e = ''FINISHED'') emps \<noteq> []"
  shows "\<exists>s. get_global_summary emps = Inr s
     \<and> finished_employees_count s
         = length (filter (\<lambda>e. get_training_status e = ''FINISHED'') emps)
     \<and> average_time_minutes s
         = py_round2 (sum_list (map total_time (filter (\<lambda>e. get_training_status e = ''FINISHED'') emps))
             / of_nat (length (filter (\<lambda>e. get_training_status e = ''FINISHED'') emps)))"
proof -
  let ?fin = "filter (\<lambda>e. get_training_status e = ''FINISHED'') emps"
  let ?times = "map total_time ?fin"
  have ne: "emps \<noteq> []" using assms by auto
  have t: "?times \<noteq> []" using assms by simp
  obtain mx where mx: "py_max_by id ?times = Inr mx" using py_max_by_total [OF t] by blast
  obtain mn where mn: "py_min_by id ?times = Inr mn" using py_min_by_total [OF t] by blast
  obtain fa where fa: "py_min_by total_time ?fin = Inr fa" using py_min_by_total [OF assms] by blast
  obtain sl where sl: "py_max_by total_time ?fin = Inr sl" using py_max_by_total [OF assms] by blast
  have dv: "py_div (sum_list ?times) (length ?times) = Inr (sum_list ?times / of_nat (length ?times))"
    using t by (intro py_div_total) simp
  show ?thesis
    using ne assms mx mn fa sl dv by (simp add: get_global_summary_def Let_def)
qed

text \<open>
  C9, as the code has it. \<open>get_global_summary\<close> never raises: no division by zero and no
  \<open>min\<close> or \<open>max\<close> of an empty sequence. For zero employee records every count and time
  statistic is 0 and the fastest and slowest employee are null. When no record is FINISHED,
  the finished count and the time statistics are 0 and the fastest and slowest employee are
  null, while \<open>total_employees\<close>, \<open>not_started_count\<close> and \<open>in_progress_count\<close> are the
  actual numbers of records. The average is computed, by a division by the number of
  finished records, only when that number is positive.
\<close>

theorem global_summary_never_divides_by_zero:
  "(\<exists>s. get_global_summary emps = Inr s)
   \<and> (emps = [] \<longrightarrow>
        get_global_summary emps =
          Inr \<lparr>total_employees = 0, finished_employees_count = 0, not_started_count = 0,
               in_progress_count = 0, max_time_minutes = 0, min_time_minutes = 0,
               average_time_minutes = 0, fastest_employee = None, slowest_employee = None\<rparr>)
   \<and> (filter (\<lambda>e. get_training_status e = ''FINISHED'') emps = [] \<longrightarrow>
        get_global_summary emps =
          Inr \<lparr>total_employees = length emps, finished_employees_count = 0,
               not_started_count =
                 length (filter (\<lambda>e. get_training_status e = ''NOT_STARTED'') emps),
               in_progress_count =
                 length (filter (\<lambda>e. get_training_status e = ''IN_PROGRESS'') emps),
               max_time_minutes = 0, min_time_minutes = 0,
               average_time_minutes = 0, fastest_employee = None, slowest_employee = None\<rparr>)
   \<and> (filter (\<lambda>e. get_training_status e = ''FINISHED'') emps \<noteq> [] \<longrightarrow>
        (\<exists>s. get_global_summary emps = Inr s
           \<and> finished_employees_count s
               = length (filter (\<lambda>e. get_training_status e = ''FINISHED'') emps)
           \<and> average_time_minutes s
               = py_round2
                   (sum_list (map total_time
                       (filter (\<lambda>e. get_training_status e = ''FINISHED'') emps))
                    / of_nat (length (filter (\<lambda>e. get_training_status e = ''FINISHED'') emps)))))"
proof -
  have 2: "emps = [] \<longrightarrow>
        get_global_summary emps =
          Inr \<lparr>total_employees = 0, finished_employees_count = 0, not_started_count = 0,
               in_progress_count = 0, max_time_minutes = 0, min_time_minutes = 0,
               average_time_minutes = 0, fastest_employee = None, slowest_employee = None\<rparr>"
    by (simp add: get_global_summary_def)
  have 3: "filter (\<lambda>e. get_training_status e = ''FINISHED'') emps = [] \<longrightarrow>
        get_global_summary emps =
          Inr \<lparr>total_employees = length emps, finished_employees_count = 0,
               not_started_count =
                 length (filter (\<lambda>e. get_training_status e = ''NOT_STARTED'') emps),
               in_progress_count =
                 length (filter (\<lambda>e. get_training_status e = ''IN_PROGRESS'') emps),
               max_time_minutes = 0, min_time_minutes = 0,
               average_time_minutes = 0, fastest_employee = None, slowest_employee = None\<rparr>"
    by (cases "emps = []") (simp_all add: get_global_summary_def Let_def)
  have 4: "filter (\<lambda>e. get_training_status e = ''FINISHED'') emps \<noteq> [] \<longrightarrow>
        (\<exists>s. get_global_summary emps = Inr s
           \<and> finished_employees_count s
               = length (filter (\<lambda>e. get_training_status e = ''FINISHED'') emps)
           \<and> average_time_minutes s
               = py_round2
                   (sum_list (map total_time
                       (filter (\<lambda>e. get_training_status e = ''FINISHED'') emps))
                    / of_nat (length (filter (\<lambda>e. get_training_status e = ''FINISHED'') emps))))"
    using global_summary_finished [of emps] by blast
  have 1: "\<exists>s. get_global_summary emps = Inr s"
    using 3 4 by (cases "filter (\<lambda>e. get_training_status e = ''FINISHED'') emps = []") blast+
  from 1 2 3 4 show ?thesis by blast
qed

lemma new_employee_status: "get_training_status new_employee = ''NOT_STARTED''"
  by (simp add: new_employee_def get_training_status_def get_completed_videos_def
      video_range_def get_video_completed_def)

lemma half_employee_status: "get_training_status half_employee = ''IN_PROGRESS''"
  by (simp add: half_employee_def new_employee_def get_training_status_def get_completed_videos_def
      video_range_def get_video_completed_def)

lemma done_employee_status: "get_training_status done_employee = ''FINISHED''"
  by (simp add: done_employee_def new_employee_def get_training_status_def get_completed_videos_def
      video_range_def get_video_completed_def)

lemma done_employee_time: "total_time done_employee = 40"
  by code_simp

theorem global_summary_never_divides_by_zero_witness:
  "get_global_summary [] =
      Inr \<lparr>total_employees = 0, finished_employees_count = 0, not_started_count = 0,
           in_progress_count = 0, max_time_minutes = 0, min_time_minutes = 0,
           average_time_minutes = 0, fastest_employee = None, slowest_employee = None\<rparr>
   \<and> filter (\<lambda>e. get_training_status e = ''FINISHED'') [new_employee, half_employee] = []
   \<and> get_global_summary [new_employee, half_employee] =
      Inr \<lparr>total_employees = 2, finished_employees_count = 0, not_started_count = 1,
           in_progress_count = 1, max_time_minutes = 0, min_time_minutes = 0,
           average_time_minutes = 0, fastest_employee = None, slowest_employee = None\<rparr>
   \<and> filter (\<lambda>e. get_training_status e = ''FINISHED'') [new_employee, done_employee] \<noteq> []
   \<and> (\<exists>s. get_global_summary [new_employee, done_employee] = Inr s
         \<and> finished_employees_count s = 1 \<and> average_time_minutes s = 40)"
proof -
  have f: "filter (\<lambda>e. get_training_status e = ''FINISHED'') [new_employee, done_employee]
      = [done_employee]"
    by (simp add: new_employee_status done_employee_status)
  have r: "py_round2 40 = 40" using py_round2_int [of 40] by simp
  have c1: "get_global_summary [] =
      Inr \<lparr>total_employees = 0, finished_employees_count = 0, not_started_count = 0,
           in_progress_count = 0, max_time_minutes = 0, min_time_minutes = 0,
           average_time_minutes = 0, fastest_employee = None, slowest_employee = None\<rparr>"
    using global_summary_never_divides_by_zero [of "[]"] by blast
  have n: "filter (\<lambda>e. get_training_status e = ''FINISHED'') [new_employee, half_employee] = []"
    by (simp add: new_employee_status half_employee_status)
  have c2: "get_global_summary [new_employee, half_employee] =
      Inr \<lparr>total_employees = 2, finished_employees_count = 0, not_started_count = 1,
           in_progress_count = 1, max_time_minutes = 0, min_time_minutes = 0,
           average_time_minutes = 0, fastest_employee = None, slowest_employee = None\<rparr>"
    using global_summary_never_divides_by_zero [of "[new_employee, half_employee]"] n
    by (simp add: new_employee_status half_employee_status)
  have ne: "filter (\<lambda>e. get_training_status e = ''FINISHED'') [new_employee, done_employee] \<noteq> []"
    unfolding f by simp
  have "\<exists>s. get_global_summary [new_employee, done_employee] = Inr s
           \<and> finished_employees_count s
               = length (filter (\<lambda>e. get_training_status e = ''FINISHED'')
                   [new_employee, done_employee])
           \<and> average_time_minutes s
               = py_round2
                   (sum_list (map total_time
                       (filter (\<lambda>e. get_training_status e = ''FINISHED'')
                          [new_employee, done_employee]))
                    / of_nat (length (filter (\<lambda>e. get_training_status e = ''FINISHED'')
                          [new_employee, done_employee])))"
    using global_summary_never_divides_by_zero [of "[new_employee, done_employee]"] ne by blast
  then have c3: "\<exists>s. get_global_summary [new_employee, done_employee] = Inr s
         \<and> finished_employees_count s = 1 \<and> average_time_minutes s = 40"
    unfolding f by (simp add: done_employee_time r)
  from c1 n c2 ne c3 show ?thesis by blast
qed

text \<open>
  C9 as stated fails: with two records, none of them FINISHED, the counts are not all 0.
\<close>

theorem global_summary_counterexample:
  "filter (\<lambda>e. get_training_status e = ''FINISHED'') [new_employee, half_employee] = []
   \<and> get_global_summary [new_employee, half_employee] =
      Inr \<lparr>total_employees = 2, finished_employees_count = 0, not_started_count = 1,
           in_progress_count = 1, max_time_minutes = 0, min_time_minutes = 0,
           average_time_minutes = 0, fastest_employee = None, slowest_employee = None\<rparr>"
  by (simp add: get_global_summary_def Let_def new_employee_status half_employee_status)

section \<open>Properties of the pipeline\<close>

text \<open>
  C1: when guardrail validation fails, \<open>process_query\<close> returns the rejection reason with
  \<open>requires_auth\<close> false, and only the validation step has run: no authentication check is
  made and the session store is as it was. When the query is accepted and the session is
  not fully authenticated, it returns the authentication-required response
  (\<open>requires_auth\<close> true) after the validation and the authentication check only: neither
  the intent parser nor the data access nor the renderer is reached, whatever they are.
\<close>

theorem process_query_gates:
  "(\<not> fst (validate_query q) \<longrightarrow>
      process_query co ev q sid w =
        (\<lparr>success = False, response = snd (validate_query q), intent = None,
          context_data = None, requires_auth = False\<rparr>, w, [Validate_query]))
   \<and> (fst (validate_query q) \<and> \<not> fst (is_authenticated ev sid w) \<longrightarrow>
      process_query co ev q sid w =
        (\<lparr>success = False,
          response = ''Please authenticate with your employee ID and name first.'',
          intent = None, context_data = None, requires_auth = True\<rparr>,
         snd (is_authenticated ev sid w), [Validate_query, Check_authentication]))"
  by (auto simp: process_query_def split: prod.splits bool.splits)

lemma validate_blank: "validate_query ''   '' = (False, ''Please provide a query.'')"
  by code_simp

lemma validate_status_query: "validate_query ''What is my training status?'' = (True, [])"
  by code_simp

lemma partial_session_not_authenticated:
  "is_authenticated example_env ''s1'' example_world = (False, example_world\<lparr>clock_reads := 1\<rparr>)"
  by (simp add: is_authenticated_def get_session_def example_world_def example_env_def
      partial_session_def is_expired_def session_is_authenticated_def)

theorem process_query_gates_witness:
  "\<not> fst (validate_query ''   '')
   \<and> process_query example_collaborators example_env ''   '' ''s1'' example_world
      = (\<lparr>success = False, response = ''Please provide a query.'', intent = None,
          context_data = None, requires_auth = False\<rparr>,
         example_world, [Validate_query])
   \<and> fst (validate_query ''What is my training status?'')
   \<and> \<not> fst (is_authenticated example_env ''s1'' example_world)
   \<and> process_query example_collaborators example_env ''What is my training status?'' ''s1''
        example_world
      = (\<lparr>success = False,
          response = ''Please authenticate with your employee ID and name first.'',
          intent = None, context_data = None, requires_auth = True\<rparr>,
         example_world\<lparr>clock_reads := 1\<rparr>, [Validate_query, Check_authentication])"
  using process_query_gates [of "''   ''" example_collaborators example_env "''s1''" example_world]
    process_query_gates [of "''What is my training status?''" example_collaborators example_env
      "''s1''" example_world]
  by (simp add: validate_blank validate_status_query partial_session_not_authenticated)

end
